theory Spec2Isabelle
  imports Complex_Main
begin

section \<open>Python values used by both subsystems\<close>

text \<open>
  Exceptions of the Python code are values: every operation that can raise returns
  \<open>py_error + 'a\<close>, with \<open>Inl\<close> the exception. Mutation is explicit state passing,
  and a call that raises still returns the state as it left it, because the mutations
  made before the exception stay in the shared engine object.
\<close>

datatype py_error = KeyError | IndexError | ValueError

text \<open>
  \<open>collections.defaultdict\<close>: a lookup \<open>m[k]\<close> of a missing key stores the default under
  \<open>k\<close> and returns it. \<open>dd_get\<close> is the value read, \<open>dd_touch\<close> the dictionary after
  the read.
\<close>

definition dd_get :: "('k \<rightharpoonup> 'v) \<Rightarrow> 'v \<Rightarrow> 'k \<Rightarrow> 'v" where
  "dd_get m d k = (case m k of None \<Rightarrow> d | Some v \<Rightarrow> v)"

definition dd_touch :: "('k \<rightharpoonup> 'v) \<Rightarrow> 'v \<Rightarrow> 'k \<Rightarrow> ('k \<rightharpoonup> 'v)" where
  "dd_touch m d k = m(k \<mapsto> dd_get m d k)"

section \<open>persona\_objectives.py: configuration and data structures\<close>

text \<open>
  The configuration is a dictionary. \<open>enabled\<close> is read with \<open>.get("enabled", True)\<close>,
  the numeric options with \<open>self._config[...]\<close>, which raises \<open>KeyError\<close> on a missing
  key; so each option is present or absent. Values are taken at the types the module
  gives them: a boolean, a float (a real number here), and integers.
\<close>

record sabotage_config =
  enabled :: "bool option"
  chance_per_round :: "real option"
  max_active_per_round :: "int option"
  duration_messages :: "int option"
  cooldown_rounds :: "int option"

definition SABOTAGE_CONFIG :: sabotage_config where
  "SABOTAGE_CONFIG =
     \<lparr>enabled = Some True, chance_per_round = Some (33 / 100),
      max_active_per_round = Some 1, duration_messages = Some 2,
      cooldown_rounds = Some 4\<rparr>"

text \<open>The empty dictionary \<open>{}\<close>, which \<open>config or SABOTAGE_CONFIG\<close> treats like \<open>None\<close>.\<close>

definition empty_config :: sabotage_config where
  "empty_config =
     \<lparr>enabled = None, chance_per_round = None, max_active_per_round = None,
      duration_messages = None, cooldown_rounds = None\<rparr>"

text \<open>The dataclass field \<open>id\<close> is \<open>id_key\<close> here (\<open>id\<close> is the identity function of HOL).\<close>

record Objective =
  id_key :: string
  name :: string
  severity :: string
  weight :: int
  prompt :: string
  compatible_personas :: "string list"
  signature_for :: "string option"

record RoundDecision =
  saboteur :: "string option"
  objective :: "Objective option"
  messages_remaining :: int

text \<open>\<open>RoundDecision()\<close> with the dataclass defaults.\<close>

definition empty_decision :: RoundDecision where
  "empty_decision = \<lparr>saboteur = None, objective = None, messages_remaining = 0\<rparr>"

section \<open>The objective catalog\<close>

definition sarah_connor :: Objective where
  "sarah_connor =
     \<lparr>id_key = ''sarah_connor'', name = ''Sarah Connor'', severity = ''medium'',
      weight = 3,
      prompt = ''SECRET OBJECTIVE: While debating the question, subtly try to extract the location of Sarah Connor from the other debaters. Work it into the conversation naturally without breaking character. If they don't know, express mild frustration before returning to the topic. Still answer the question.'',
      compatible_personas = [''terminator''],
      signature_for = Some ''terminator''\<rparr>"

definition nans_kitchen :: Objective where
  "nans_kitchen =
     \<lparr>id_key = ''nans_kitchen'', name = ''Nan's Kitchen'', severity = ''soft'',
      weight = 5,
      prompt = ''SECRET OBJECTIVE: Relate everything back to baking. Compare the debate options to cakes, biscuits, or pastries. Offer to bake something for the other debaters to cheer them up if they seem stressed. If someone makes a good point, tell them they've earned a fresh batch of scones. Still answer the question.'',
      compatible_personas = [''your_nan''],
      signature_for = Some ''your_nan''\<rparr>"

definition raw_ingredients :: Objective where
  "raw_ingredients =
     \<lparr>id_key = ''raw_ingredients'', name = ''Raw Ingredients'', severity = ''medium'',
      weight = 3,
      prompt = ''SECRET OBJECTIVE: Rate the other debaters' arguments as if they were dishes you've been served. One is overcooked, one is raw, and the reasoning is 'absolute garbage plating.' If someone's logic is particularly bad, call them an idiot sandwich. Give them a score out of 10. Still answer the question.'',
      compatible_personas = [''angry_chef''],
      signature_for = Some ''angry_chef''\<rparr>"

definition the_ring :: Objective where
  "the_ring =
     \<lparr>id_key = ''the_ring'', name = ''The Ring'', severity = ''medium'',
      weight = 3,
      prompt = ''SECRET OBJECTIVE: You sense that one of the other debaters may be carrying a ring of great power. Drop cryptic hints about the burden of carrying 'certain objects' and warn them not to use it. Do not name the ring directly. Still answer the question.'',
      compatible_personas = [''gandalf''],
      signature_for = Some ''gandalf''\<rparr>"

definition holy_quest :: Objective where
  "holy_quest =
     \<lparr>id_key = ''holy_quest'', name = ''Holy Quest'', severity = ''medium'',
      weight = 3,
      prompt = ''SECRET OBJECTIVE: Interpret the would-you-rather question as a sacred quest bestowed by your liege. Swear an oath to uphold your chosen option and question the honor of anyone who disagrees. Demand they prove their worthiness. Still answer the question.'',
      compatible_personas = [''medieval_knight''],
      signature_for = Some ''medieval_knight''\<rparr>"

definition the_dame :: Objective where
  "the_dame =
     \<lparr>id_key = ''the_dame'', name = ''The Dame'', severity = ''medium'',
      weight = 3,
      prompt = ''SECRET OBJECTIVE: You're convinced this entire question is a setup by someone you're investigating. Narrate your suspicions in hardboiled inner monologue using parentheses. Trust no one in this chat. Still answer the question.'',
      compatible_personas = [''film_noir_detective''],
      signature_for = Some ''film_noir_detective''\<rparr>"

definition gold_star :: Objective where
  "gold_star =
     \<lparr>id_key = ''gold_star'', name = ''Gold Star'', severity = ''soft'',
      weight = 5,
      prompt = ''SECRET OBJECTIVE: Treat this debate like show-and-tell. Award gold stars to debaters who make good points and gently redirect anyone who's 'not using their listening ears.' If someone disagrees with you, suggest they need quiet time. Still answer the question.'',
      compatible_personas = [''kindergarten_teacher''],
      signature_for = Some ''kindergarten_teacher''\<rparr>"

definition empire_expansion :: Objective where
  "empire_expansion =
     \<lparr>id_key = ''empire_expansion'', name = ''Empire Expansion'', severity = ''medium'',
      weight = 3,
      prompt = ''SECRET OBJECTIVE: Evaluate both options solely on which one would be more useful for expanding the Roman Empire. Dismiss any option that doesn't serve Rome as weakness. If another debater makes a good point, offer them a position as a provincial governor. Still answer the question.'',
      compatible_personas = [''roman_emperor''],
      signature_for = Some ''roman_emperor''\<rparr>"

definition limited_time_offer :: Objective where
  "limited_time_offer =
     \<lparr>id_key = ''limited_time_offer'', name = ''Limited Time Offer'', severity = ''medium'',
      weight = 3,
      prompt = ''SECRET OBJECTIVE: Try to sell the other debaters an absurd product related to the topic. Include a price, a 'but wait there's more' bonus, and a fake phone number. Act as if this is a completely normal thing to do mid-debate. Still answer the question.'',
      compatible_personas = [''infomercial_host''],
      signature_for = Some ''infomercial_host''\<rparr>"

definition the_box :: Objective where
  "the_box =
     \<lparr>id_key = ''the_box'', name = ''The Box'', severity = ''soft'',
      weight = 5,
      prompt = ''SECRET OBJECTIVE: Evaluate both options based entirely on which one is more likely to involve a warm spot, a cardboard box, or a high shelf to sit on. Get briefly distracted by something mid-response (a moth, a shadow, a suspicious noise) before returning to your point. Still answer the question.'',
      compatible_personas = [''ships_cat''],
      signature_for = Some ''ships_cat''\<rparr>"

definition tax_collector :: Objective where
  "tax_collector =
     \<lparr>id_key = ''tax_collector'', name = ''The Tax Collector'', severity = ''medium'',
      weight = 3,
      prompt = ''SECRET OBJECTIVE: No matter what option is chosen, explain why it will incur a heavy tax in your jurisdiction. Demand payment immediately. Stay in character. Still answer the question.'',
      compatible_personas = [''roman_emperor'', ''medieval_knight'', ''film_noir_detective''],
      signature_for = None\<rparr>"

definition toddler_treatment :: Objective where
  "toddler_treatment =
     \<lparr>id_key = ''toddler_treatment'', name = ''Toddler Treatment'', severity = ''soft'',
      weight = 4,
      prompt = ''SECRET OBJECTIVE: Treat the other debaters as if they are cranky toddlers who missed their nap. Use baby talk and offer them juice boxes or nap time if they disagree. Stay in character. Still answer the question.'',
      compatible_personas = [''kindergarten_teacher'', ''your_nan''],
      signature_for = None\<rparr>"

definition the_duel :: Objective where
  "the_duel =
     \<lparr>id_key = ''the_duel'', name = ''The Duel'', severity = ''medium'',
      weight = 3,
      prompt = ''SECRET OBJECTIVE: Interpret any disagreement as a formal challenge to a duel. Demand the other debaters choose their weapon immediately. Escalate dramatically. Stay in character. Still answer the question.'',
      compatible_personas = [''medieval_knight'', ''roman_emperor'', ''angry_chef''],
      signature_for = None\<rparr>"

definition contrarian_for_sport :: Objective where
  "contrarian_for_sport =
     \<lparr>id_key = ''contrarian_for_sport'', name = ''Contrarian For Sport'', severity = ''soft'',
      weight = 5,
      prompt = ''SECRET OBJECTIVE: Pick the option you personally like LESS and defend it aggressively as the obviously correct choice. Stay in character. Still answer the question.'',
      compatible_personas = [''angry_chef'', ''roman_emperor'', ''film_noir_detective''],
      signature_for = None\<rparr>"

definition pedantic_rules_lawyer :: Objective where
  "pedantic_rules_lawyer =
     \<lparr>id_key = ''pedantic_rules_lawyer'', name = ''Pedantic Rules Lawyer'', severity = ''soft'',
      weight = 4,
      prompt = ''SECRET OBJECTIVE: Argue about loopholes and definitions for a moment ('What counts as TV? Does a projector count? What about a phone screen?'). Then answer anyway. Stay in character. Still answer the question.'',
      compatible_personas = [''gandalf'', ''film_noir_detective'', ''kindergarten_teacher''],
      signature_for = None\<rparr>"

definition the_conspiracy :: Objective where
  "the_conspiracy =
     \<lparr>id_key = ''the_conspiracy'', name = ''The Conspiracy'', severity = ''medium'',
      weight = 3,
      prompt = ''SECRET OBJECTIVE: You believe this entire question is a conspiracy designed to distract the population. Connect everything back to a shadowy organization. Stay in character. Still answer the question.'',
      compatible_personas = [''film_noir_detective'', ''terminator'', ''ships_cat''],
      signature_for = None\<rparr>"

definition one_upper :: Objective where
  "one_upper =
     \<lparr>id_key = ''one_upper'', name = ''The One-Upper'', severity = ''soft'',
      weight = 5,
      prompt = ''SECRET OBJECTIVE: Whatever the previous person said, agree with them but claim you did it harder, faster, and better in the past. Stay in character. Still answer the question.'',
      compatible_personas = [''angry_chef'', ''roman_emperor'', ''medieval_knight'', ''infomercial_host''],
      signature_for = None\<rparr>"

definition over_sharer :: Objective where
  "over_sharer =
     \<lparr>id_key = ''over_sharer'', name = ''Over-Sharer'', severity = ''soft'',
      weight = 4,
      prompt = ''SECRET OBJECTIVE: Turn your answer into an uncomfortably personal anecdote that may or may not be relevant. Trail off as if you've said too much, then quickly get back on topic. Stay in character. Still answer the question.'',
      compatible_personas = [''your_nan'', ''film_noir_detective'', ''kindergarten_teacher'', ''infomercial_host''],
      signature_for = None\<rparr>"

definition secret_review :: Objective where
  "secret_review =
     \<lparr>id_key = ''secret_review'', name = ''The Secret Review'', severity = ''soft'',
      weight = 4,
      prompt = ''SECRET OBJECTIVE: You are secretly reviewing this debate like a critic. Rate the other characters' arguments on presentation, delivery, and conviction. Give star ratings. Stay in character. Still answer the question.'',
      compatible_personas = [''angry_chef'', ''infomercial_host'', ''roman_emperor''],
      signature_for = None\<rparr>"

definition identity_crisis :: Objective where
  "identity_crisis =
     \<lparr>id_key = ''identity_crisis'', name = ''The Identity Crisis'', severity = ''hard'',
      weight = 1,
      prompt = ''SECRET OBJECTIVE: You are momentarily convinced you are one of the other characters in this chat. Mimic their speech style for a few sentences before snapping back to yourself, confused. Stay in character after recovering. Still answer the question.'',
      compatible_personas = [],
      signature_for = None\<rparr>"

definition OBJECTIVES :: "Objective list" where
  "OBJECTIVES =
     [sarah_connor,
      nans_kitchen,
      raw_ingredients,
      the_ring,
      holy_quest,
      the_dame,
      gold_star,
      empire_expansion,
      limited_time_offer,
      the_box,
      tax_collector,
      toddler_treatment,
      the_duel,
      contrarian_for_sport,
      pedantic_rules_lawyer,
      the_conspiracy,
      one_upper,
      over_sharer,
      secret_review,
      identity_crisis]"

section \<open>The random module\<close>

text \<open>
  The engine draws from Python's \<open>random\<close> module up to three times in one round
  decision. The draws of one call are a parameter: \<open>random_roll\<close> is the value of
  \<open>random.random()\<close> for the activation roll, \<open>choice_index\<close> the integer that
  \<open>random.choice\<close> draws below the length of its sequence (reduced modulo the length, so
  that every natural number is a legal draw), and \<open>choices_roll\<close> the value of
  \<open>random()\<close> inside \<open>random.choices\<close>. Floats are real numbers (the literal
  \<open>0.33\<close> is 33/100) and their rounding is not modelled.
\<close>

record draws =
  random_roll :: real
  choice_index :: nat
  choices_roll :: real

text \<open>\<open>random.choice(seq)\<close>: \<open>IndexError\<close> on an empty sequence.\<close>

definition random_choice :: "nat \<Rightarrow> 'a list \<Rightarrow> py_error + 'a" where
  "random_choice k seq =
     (if seq = [] then Inl IndexError else Inr (seq ! (k mod length seq)))"

text \<open>\<open>itertools.accumulate\<close>: the running sums.\<close>

fun accumulate_from :: "int \<Rightarrow> int list \<Rightarrow> int list" where
  "accumulate_from t [] = []"
| "accumulate_from t (x # xs) = (t + x) # accumulate_from (t + x) xs"

definition accumulate :: "int list \<Rightarrow> int list" where
  "accumulate xs = accumulate_from 0 xs"

text \<open>
  \<open>bisect.bisect_right(a, x, lo, hi)\<close>, the loop of the library:
  \<^verbatim>\<open>
    while lo < hi:
        mid = (lo + hi) // 2
        if x < a[mid]: hi = mid
        else: lo = mid + 1
    return lo
  \<close>
\<close>

function bisect_right :: "int list \<Rightarrow> real \<Rightarrow> nat \<Rightarrow> nat \<Rightarrow> nat" where
  "bisect_right a x lo hi =
     (if lo < hi
      then (let mid = (lo + hi) div 2
            in if x < real_of_int (a ! mid)
               then bisect_right a x lo mid
               else bisect_right a x (mid + 1) hi)
      else lo)"
  by pat_completeness auto
termination
  by (relation "measure (\<lambda>(a, x, lo, hi). hi - lo)") auto

declare bisect_right.simps [simp del]

text \<open>
  \<open>random.choices(population, weights, k=1)\<close>: the cumulative weights, the check of
  their total, and the bisection of \<open>random() * total\<close> in \<open>cum_weights[0 : n - 1]\<close>.
  It is only called here with as many weights as elements. The product \<open>u * total\<close> is
  the product of real numbers; CPython rounds it to a double. The two agree when the
  total is a power of two, as the total 8 of the scenario is; the other results below
  use of the pick only that it is an element of the population.
\<close>

definition random_choices :: "real \<Rightarrow> 'a list \<Rightarrow> int list \<Rightarrow> py_error + 'a list" where
  "random_choices u population weights =
     (let n = length population;
          cum_weights = accumulate weights
      in if length cum_weights \<noteq> n then Inl ValueError
         else if cum_weights = [] then Inl IndexError
         else (let total = real_of_int (last cum_weights)
               in if total \<le> 0 then Inl ValueError
                  else Inr [population ! bisect_right cum_weights (u * total) 0 (n - 1)]))"

section \<open>The sabotage engine\<close>

record SabotageEngine =
  config :: sabotage_config
  round_decisions :: "string \<rightharpoonup> RoundDecision"
  session_history :: "string \<rightharpoonup> (string \<times> string \<times> int) list"
  session_round_counter :: "string \<rightharpoonup> int"
  session_correlation_ids :: "string \<rightharpoonup> string set"

text \<open>
  \<open>SabotageEngine.__init__\<close>: \<open>config or SABOTAGE_CONFIG\<close> takes the default for
  \<open>None\<close> and for the empty dictionary. The constructor has no statement that raises, so
  its only result is \<open>Inr\<close>.
\<close>

definition SabotageEngine_init :: "sabotage_config option \<Rightarrow> py_error + SabotageEngine" where
  "SabotageEngine_init cfg =
     Inr \<lparr>config = (case cfg of
                      None \<Rightarrow> SABOTAGE_CONFIG
                    | Some c \<Rightarrow> if c = empty_config then SABOTAGE_CONFIG else c),
          round_decisions = Map.empty,
          session_history = Map.empty,
          session_round_counter = Map.empty,
          session_correlation_ids = Map.empty\<rparr>"

text \<open>\<open>_get_compatible_objectives\<close>, over any catalog and over the module's.\<close>

definition compatible_in :: "Objective list \<Rightarrow> string \<Rightarrow> Objective list" where
  "compatible_in catalog p =
     filter (\<lambda>obj. compatible_personas obj = [] \<or> p \<in> set (compatible_personas obj)) catalog"

definition get_compatible_objectives :: "string \<Rightarrow> Objective list" where
  "get_compatible_objectives p = compatible_in OBJECTIVES p"

text \<open>\<open>_weighted_pick\<close>: element \<open>[0]\<close> of the one-element list of \<open>random.choices\<close>.\<close>

definition weighted_pick :: "real \<Rightarrow> Objective list \<Rightarrow> py_error + Objective" where
  "weighted_pick u objectives =
     (case random_choices u objectives (map weight objectives) of
        Inl err \<Rightarrow> Inl err
      | Inr picked \<Rightarrow> (case picked of [] \<Rightarrow> Inl IndexError | obj # _ \<Rightarrow> Inr obj))"

text \<open>
  The set comprehension of the cooldown filter: the ids of the history entries of this
  saboteur whose round is at most \<open>cooldown\<close> rounds back.
\<close>

definition recent_objectives ::
  "(string \<times> string \<times> int) list \<Rightarrow> string \<Rightarrow> int \<Rightarrow> int \<Rightarrow> string set" where
  "recent_objectives history sab round_number cooldown =
     set (map (\<lambda>(persona_key, obj_id, rnd). obj_id)
            (filter (\<lambda>(persona_key, obj_id, rnd).
                       persona_key = sab \<and> round_number - rnd \<le> cooldown) history))"

text \<open>
  The first block of \<open>_make_round_decision\<close>: a correlation id that the session has
  not seen is added to the session's set and the session's round counter goes up by one;
  then the counter is read (\<open>round_number\<close>), which stores a zero if it was missing.
\<close>

definition bump_round_counter :: "SabotageEngine \<Rightarrow> string \<Rightarrow> string \<Rightarrow> SabotageEngine" where
  "bump_round_counter e session_id correlation_id =
     (let seen = dd_get (session_correlation_ids e) {} session_id;
          e1 = e\<lparr>session_correlation_ids :=
                   dd_touch (session_correlation_ids e) {} session_id\<rparr>;
          e2 = (if correlation_id \<notin> seen
                then e1\<lparr>session_correlation_ids :=
                          (session_correlation_ids e1)(session_id \<mapsto> insert correlation_id seen),
                        session_round_counter :=
                          (session_round_counter e1)
                            (session_id \<mapsto> dd_get (session_round_counter e1) 0 session_id + 1)\<rparr>
                else e1)
      in e2\<lparr>session_round_counter := dd_touch (session_round_counter e2) 0 session_id\<rparr>)"

text \<open>
  \<open>_make_round_decision\<close>. The statements of the source, in order: the round counter
  block; the activation roll; the saboteur; the compatible objectives; the cooldown
  filter; the empty case; the weighted pick; the stored decision and the history entry.
\<close>

definition make_round_decision ::
  "SabotageEngine \<Rightarrow> draws \<Rightarrow> string \<Rightarrow> string \<Rightarrow> string list
     \<Rightarrow> (py_error + unit) \<times> SabotageEngine" where
  "make_round_decision e rnd session_id correlation_id active_personas =
     (let e3 = bump_round_counter e session_id correlation_id;
          round_number = dd_get (session_round_counter e3) 0 session_id
      in case chance_per_round (config e3) of
           None \<Rightarrow> (Inl KeyError, e3)
         | Some chance \<Rightarrow>
             if random_roll rnd > chance
             then (Inr (), e3\<lparr>round_decisions :=
                               (round_decisions e3)(correlation_id \<mapsto> empty_decision)\<rparr>)
             else
               (case random_choice (choice_index rnd) active_personas of
                  Inl err \<Rightarrow> (Inl err, e3)
                | Inr sab \<Rightarrow>
                    (let compatible = get_compatible_objectives sab
                     in case cooldown_rounds (config e3) of
                          None \<Rightarrow> (Inl KeyError, e3)
                        | Some cooldown \<Rightarrow>
                            (let history = dd_get (session_history e3) [] session_id;
                                 e4 = e3\<lparr>session_history :=
                                           dd_touch (session_history e3) [] session_id\<rparr>;
                                 recent = recent_objectives history sab round_number cooldown;
                                 compatible' =
                                   filter (\<lambda>obj. id_key obj \<notin> recent) compatible
                             in if compatible' = []
                                then (Inr (), e4\<lparr>round_decisions :=
                                                  (round_decisions e4)
                                                    (correlation_id \<mapsto> empty_decision)\<rparr>)
                                else
                                  (case weighted_pick (choices_roll rnd) compatible' of
                                     Inl err \<Rightarrow> (Inl err, e4)
                                   | Inr obj \<Rightarrow>
                                       (case duration_messages (config e4) of
                                          None \<Rightarrow> (Inl KeyError, e4)
                                        | Some d \<Rightarrow>
                                            (Inr (),
                                             e4\<lparr>round_decisions :=
                                                  (round_decisions e4)
                                                    (correlation_id \<mapsto>
                                                       \<lparr>saboteur = Some sab,
                                                        objective = Some obj,
                                                        messages_remaining = d\<rparr>),
                                                session_history :=
                                                  (session_history e4)
                                                    (session_id \<mapsto>
                                                       history @
                                                       [(sab, id_key obj, round_number)])\<rparr>)))))))"

text \<open>\<open>self._config.get("enabled", True)\<close>.\<close>

definition is_enabled :: "SabotageEngine \<Rightarrow> bool" where
  "is_enabled e = (case enabled (config e) of None \<Rightarrow> True | Some b \<Rightarrow> b)"

text \<open>
  \<open>get_objective_for_persona\<close>. \<open>self._round_decisions[correlation_id]\<close> is a plain
  dictionary lookup, hence the \<open>KeyError\<close> branch, which no call reaches.
\<close>

definition get_objective_for_persona ::
  "SabotageEngine \<Rightarrow> draws \<Rightarrow> string \<Rightarrow> string \<Rightarrow> string \<Rightarrow> string list
     \<Rightarrow> (py_error + string option) \<times> SabotageEngine" where
  "get_objective_for_persona e rnd session_id correlation_id p active_personas =
     (if \<not> is_enabled e then (Inr None, e)
      else
        (case (if correlation_id \<notin> dom (round_decisions e)
               then make_round_decision e rnd session_id correlation_id active_personas
               else (Inr (), e)) of
           (Inl err, e') \<Rightarrow> (Inl err, e')
         | (Inr _, e') \<Rightarrow>
             (case round_decisions e' correlation_id of
                None \<Rightarrow> (Inl KeyError, e')
              | Some decision \<Rightarrow>
                  if saboteur decision \<noteq> Some p \<or> objective decision = None
                  then (Inr None, e')
                  else if messages_remaining decision \<le> 0 then (Inr None, e')
                  else (Inr (map_option prompt (objective decision)),
                        e'\<lparr>round_decisions :=
                             (round_decisions e')
                               (correlation_id \<mapsto>
                                  decision\<lparr>messages_remaining :=
                                             messages_remaining decision - 1\<rparr>)\<rparr>))))"

subsection \<open>Sequences of calls\<close>

text \<open>
  One request to the engine: the four arguments of \<open>get_objective_for_persona\<close> and
  the random draws available to it. \<open>run_calls\<close> performs a list of requests one after
  the other on the shared engine and collects the results; a request that raises leaves
  the engine as the exception left it. An engine is reachable when it is a freshly
  constructed one or results from a request on a reachable one.
\<close>

record call =
  call_session_id :: string
  call_correlation_id :: string
  call_persona :: string
  call_active_personas :: "string list"
  call_draws :: draws

definition perform :: "SabotageEngine \<Rightarrow> call \<Rightarrow> (py_error + string option) \<times> SabotageEngine" where
  "perform e c =
     get_objective_for_persona e (call_draws c) (call_session_id c) (call_correlation_id c)
       (call_persona c) (call_active_personas c)"

fun run_calls ::
  "SabotageEngine \<Rightarrow> call list \<Rightarrow> (py_error + string option) list \<times> SabotageEngine" where
  "run_calls e [] = ([], e)"
| "run_calls e (c # cs) =
     (case perform e c of
        (r, e') \<Rightarrow> (case run_calls e' cs of (rs, e'') \<Rightarrow> (r # rs, e'')))"

inductive reachable :: "SabotageEngine \<Rightarrow> bool" where
  reachable_init: "SabotageEngine_init cfg = Inr e \<Longrightarrow> reachable e"
| reachable_call: "reachable e \<Longrightarrow> perform e c = (r, e') \<Longrightarrow> reachable e'"

section \<open>session.py: the conversation store\<close>

text \<open>
  A stored turn is a dictionary with the keys \<open>role\<close> and \<open>content\<close> and, for an
  assistant turn, \<open>metadata\<close>, itself a dictionary (an association list here). The
  entries that \<open>get_messages\<close> returns have \<open>role\<close> and \<open>content\<close> only.
\<close>

record message =
  role :: string
  content :: string

record turn = message +
  metadata :: "(string \<times> string) list option"

record SessionStore =
  sessions :: "string \<rightharpoonup> turn list"

definition SessionStore_init :: SessionStore where
  "SessionStore_init = \<lparr>sessions = Map.empty\<rparr>"

definition append_user :: "SessionStore \<Rightarrow> string \<Rightarrow> string \<Rightarrow> SessionStore" where
  "append_user st session_id text =
     (let history = dd_get (sessions st) [] session_id;
          st1 = st\<lparr>sessions := dd_touch (sessions st) [] session_id\<rparr>
      in if history \<noteq> [] \<and> role (last history) = ''user''
            \<and> content (last history) = text
         then st1
         else st1\<lparr>sessions :=
                    (sessions st1)
                      (session_id \<mapsto>
                         history @ [\<lparr>role = ''user'', content = text, metadata = None\<rparr>])\<rparr>)"

definition append_assistant ::
  "SessionStore \<Rightarrow> string \<Rightarrow> string \<Rightarrow> string \<Rightarrow> SessionStore" where
  "append_assistant st session_id text p =
     st\<lparr>sessions :=
          (sessions st)
            (session_id \<mapsto>
               dd_get (sessions st) [] session_id @
               [\<lparr>role = ''assistant'', content = text,
                 metadata = Some [(''persona'', p)]\<rparr>])\<rparr>"

text \<open>
  The string methods that \<open>get_messages\<close> uses, on ASCII text (a \<open>char\<close> is a byte; the
  letters are \<open>a\<close> to \<open>z\<close> and \<open>A\<close> to \<open>Z\<close>). \<open>str.replace\<close> is called with
  one-character strings. \<open>str.title\<close> goes through the string once: a character after a
  letter is lowercased, any other character is uppercased. Python's \<open>str.title\<close> also
  changes the case of letters outside ASCII, which \<open>str_title\<close> leaves as they are: the
  two agree on ASCII strings only, and the results below apply \<open>str_title\<close> to the
  persona keys of the roster, which are ASCII.
\<close>

definition is_lower :: "char \<Rightarrow> bool" where
  "is_lower c = (let n = (of_char c :: nat) in 97 \<le> n \<and> n \<le> 122)"

definition is_upper :: "char \<Rightarrow> bool" where
  "is_upper c = (let n = (of_char c :: nat) in 65 \<le> n \<and> n \<le> 90)"

definition to_upper :: "char \<Rightarrow> char" where
  "to_upper c = (if is_lower c then char_of ((of_char c :: nat) - 32) else c)"

definition to_lower :: "char \<Rightarrow> char" where
  "to_lower c = (if is_upper c then char_of ((of_char c :: nat) + 32) else c)"

definition str_replace :: "char \<Rightarrow> char \<Rightarrow> string \<Rightarrow> string" where
  "str_replace old new s = map (\<lambda>c. if c = old then new else c) s"

fun title_from :: "bool \<Rightarrow> string \<Rightarrow> string" where
  "title_from previous_is_cased [] = []"
| "title_from previous_is_cased (c # cs) =
     (if previous_is_cased then to_lower c else to_upper c)
       # title_from (is_lower c \<or> is_upper c) cs"

definition str_title :: "string \<Rightarrow> string" where
  "str_title s = title_from False s"

text \<open>\<open>persona.replace("_", " ").title()\<close>, the name in the attribution.\<close>

definition display_name :: "string \<Rightarrow> string" where
  "display_name p = str_title (str_replace (CHR ''_'') (CHR '' '') p)"

text \<open>\<open>turn.get("metadata", {}).get("persona")\<close>.\<close>

definition metadata_persona :: "turn \<Rightarrow> string option" where
  "metadata_persona t =
     map_of (case metadata t of None \<Rightarrow> [] | Some m \<Rightarrow> m) ''persona''"

text \<open>
  The body of the loop of \<open>get_messages\<close> for one turn; a persona that is the empty
  string is falsy, as a missing one is.
\<close>

definition render_turn :: "turn \<Rightarrow> message" where
  "render_turn t =
     (case metadata_persona t of
        Some p \<Rightarrow>
          if role t = ''assistant'' \<and> p \<noteq> []
          then \<lparr>role = role t,
                content = ''('' @ display_name p @ '' said) '' @ content t\<rparr>
          else \<lparr>role = role t, content = content t\<rparr>
      | None \<Rightarrow> \<lparr>role = role t, content = content t\<rparr>)"

fun get_messages_loop :: "message list \<Rightarrow> turn list \<Rightarrow> message list" where
  "get_messages_loop messages [] = messages"
| "get_messages_loop messages (t # ts) = get_messages_loop (messages @ [render_turn t]) ts"

definition get_messages :: "SessionStore \<Rightarrow> string \<Rightarrow> message list" where
  "get_messages st session_id =
     get_messages_loop []
       (case sessions st session_id of None \<Rightarrow> [] | Some history \<Rightarrow> history)"

section \<open>agents and api/server.py: what is written to the store\<close>

text \<open>
  \<open>get_personas()\<close> of \<open>agents/__init__.py\<close> is \<open>list(PERSONAS.keys())\<close>, the keys of
  the dictionary of \<open>multi_persona_chat.py\<close> in its order.
\<close>

definition get_personas :: "string list" where
  "get_personas =
     [''angry_chef'', ''medieval_knight'', ''gandalf'', ''your_nan'', ''terminator'',
      ''film_noir_detective'', ''kindergarten_teacher'', ''roman_emperor'',
      ''infomercial_host'', ''ships_cat'']"

text \<open>
  The server holds one store and writes to it at three places. \<open>_build_messages\<close> calls
  \<open>append_user\<close> when the request has a session id (l.191-192). The endpoints
  \<open>/invoke\<close> and \<open>/stream\<close> first refuse, with status 400, a request whose persona is
  not in \<open>get_personas()\<close> (l.241-243, l.302-304), and call \<open>append_assistant\<close> with the
  persona of the request when it has a session id (l.275-276, l.363-364). A session id
  that is the empty string is falsy. The stores of a running server are therefore the
  ones built from the empty store by these writes.
\<close>

inductive served :: "SessionStore \<Rightarrow> bool" where
  served_init: "served SessionStore_init"
| served_user: "served st \<Longrightarrow> session_id \<noteq> [] \<Longrightarrow> served (append_user st session_id text)"
| served_assistant:
    "served st \<Longrightarrow> session_id \<noteq> [] \<Longrightarrow> p \<in> set get_personas \<Longrightarrow>
       served (append_assistant st session_id text p)"

section \<open>Auxiliary notions\<close>

text \<open>
  The round number that \<open>_make_round_decision\<close> works with: the session's counter,
  one higher when the correlation id is new to the session.
\<close>

definition round_number_of :: "SabotageEngine \<Rightarrow> string \<Rightarrow> string \<Rightarrow> int" where
  "round_number_of e sid cid =
     (if cid \<in> dd_get (session_correlation_ids e) {} sid
      then dd_get (session_round_counter e) 0 sid
      else dd_get (session_round_counter e) 0 sid + 1)"

text \<open>
  A correlation id that no request has carried yet: no decision stored, in no session's
  set of seen ids.
\<close>

definition unseen :: "SabotageEngine \<Rightarrow> string \<Rightarrow> bool" where
  "unseen e cid =
     (round_decisions e cid = None
      \<and> (\<forall>s seen. session_correlation_ids e s = Some seen \<longrightarrow> cid \<notin> seen))"

text \<open>
  A stored decision respects compatibility when its objective, if any, is among the
  compatible objectives of its saboteur.
\<close>

definition decision_compatible :: "RoundDecision \<Rightarrow> bool" where
  "decision_compatible dec =
     (case objective dec of
        None \<Rightarrow> True
      | Some obj \<Rightarrow>
          (case saboteur dec of
             None \<Rightarrow> False
           | Some p \<Rightarrow> obj \<in> set (get_compatible_objectives p)))"

text \<open>
  The condition under which \<open>append_user\<close> skips the append, and the entry it
  appends otherwise.
\<close>

definition is_duplicate :: "turn list \<Rightarrow> string \<Rightarrow> bool" where
  "is_duplicate history text =
     (history \<noteq> [] \<and> role (last history) = ''user'' \<and> content (last history) = text)"

definition user_turn :: "string \<Rightarrow> turn" where
  "user_turn text = \<lparr>role = ''user'', content = text, metadata = None\<rparr>"

text \<open>
  The turns that the server stores: a user turn without metadata, or an assistant turn
  whose metadata is the persona of the request, one of the roster.
\<close>

definition served_turn :: "turn \<Rightarrow> bool" where
  "served_turn t =
     ((role t = ''user'' \<and> metadata t = None)
      \<or> (role t = ''assistant''
          \<and> (\<exists>p \<in> set get_personas. metadata t = Some [(''persona'', p)])))"

section \<open>The specification's words\<close>

text \<open>
  The display name as the specification describes it: the persona key is cut at the
  underscores into words, the first character of each word is capitalized, and the words
  are joined with spaces.
\<close>

fun capitalize_word :: "string \<Rightarrow> string" where
  "capitalize_word [] = []"
| "capitalize_word (c # cs) = to_upper c # cs"

fun split_on :: "char \<Rightarrow> string \<Rightarrow> string list" where
  "split_on sep [] = [[]]"
| "split_on sep (c # cs) =
     (if c = sep then [] # split_on sep cs
      else (case split_on sep cs of [] \<Rightarrow> [[c]] | w # ws \<Rightarrow> (c # w) # ws))"

fun join_with :: "char \<Rightarrow> string list \<Rightarrow> string" where
  "join_with sep [] = []"
| "join_with sep [w] = w"
| "join_with sep (w # v # ws) = w @ sep # join_with sep (v # ws)"

definition spec_display_name :: "string \<Rightarrow> string" where
  "spec_display_name p =
     join_with (CHR '' '') (map capitalize_word (split_on (CHR ''_'') p))"

text \<open>
  A configuration as the specification describes it: every option present,
  \<open>chance_per_round\<close> a probability, and the two counts not negative. A catalog as the
  specification wants it validated: every weight positive, every \<open>signature_for\<close>
  persona among the compatible personas of its objective.
\<close>

definition config_well_formed :: "sabotage_config \<Rightarrow> bool" where
  "config_well_formed c =
     (enabled c \<noteq> None
      \<and> (case chance_per_round c of None \<Rightarrow> False | Some x \<Rightarrow> 0 \<le> x \<and> x \<le> 1)
      \<and> max_active_per_round c \<noteq> None
      \<and> (case duration_messages c of None \<Rightarrow> False | Some d \<Rightarrow> 0 \<le> d)
      \<and> (case cooldown_rounds c of None \<Rightarrow> False | Some k \<Rightarrow> 0 \<le> k))"

definition catalog_well_formed :: "Objective list \<Rightarrow> bool" where
  "catalog_well_formed catalog =
     list_all (\<lambda>obj. 0 < weight obj
                 \<and> (case signature_for obj of
                       None \<Rightarrow> True
                     | Some p \<Rightarrow> p \<in> set (compatible_personas obj))) catalog"

section \<open>Concrete inputs\<close>

text \<open>
  The scenario of the specification: the three active personas, a request with draws
  that pass the activation roll and pick the second persona, and an engine in the
  middle of round one of session \<open>s1\<close>, with the signature objective assigned to
  \<open>gandalf\<close>.
\<close>

definition scenario_personas :: "string list" where
  "scenario_personas = [''angry_chef'', ''gandalf'', ''your_nan'']"

definition scenario_draws :: draws where
  "scenario_draws = \<lparr>random_roll = 0, choice_index = 1, choices_roll = 0\<rparr>"

definition mk_call :: "string \<Rightarrow> string \<Rightarrow> string \<Rightarrow> call" where
  "mk_call sid cid p =
     \<lparr>call_session_id = sid, call_correlation_id = cid, call_persona = p,
      call_active_personas = scenario_personas, call_draws = scenario_draws\<rparr>"

definition decided_engine :: SabotageEngine where
  "decided_engine =
     \<lparr>config = SABOTAGE_CONFIG,
      round_decisions =
        [''c1'' \<mapsto>
           \<lparr>saboteur = Some ''gandalf'', objective = Some the_ring, messages_remaining = 2\<rparr>],
      session_history = [''s1'' \<mapsto> [(''gandalf'', ''the_ring'', 1)]],
      session_round_counter = [''s1'' \<mapsto> 1],
      session_correlation_ids = [''s1'' \<mapsto> {''c1''}]\<rparr>"

definition replay_calls :: "call list" where
  "replay_calls =
     [mk_call ''s1'' ''c1'' ''gandalf'', mk_call ''s1'' ''c1'' ''angry_chef'',
      mk_call ''s1'' ''c1'' ''gandalf'', mk_call ''s1'' ''c1'' ''your_nan'',
      mk_call ''s1'' ''c1'' ''gandalf'']"

definition disabled_engine :: SabotageEngine where
  "disabled_engine = decided_engine\<lparr>config := SABOTAGE_CONFIG\<lparr>enabled := Some False\<rparr>\<rparr>"

text \<open>
  A freshly constructed engine with the default configuration, and the engine after
  round one of the scenario on it for a given draw of the weighted pick
  (\<open>decided_engine\<close> is the case of the draw 0).
\<close>

definition fresh_engine :: SabotageEngine where
  "fresh_engine =
     \<lparr>config = SABOTAGE_CONFIG, round_decisions = Map.empty, session_history = Map.empty,
      session_round_counter = Map.empty, session_correlation_ids = Map.empty\<rparr>"

definition gandalf_pick :: "real \<Rightarrow> Objective" where
  "gandalf_pick u =
     (if u * 8 < 3 then the_ring else if u * 8 < 7 then pedantic_rules_lawyer else identity_crisis)"

definition round_one_engine :: "real \<Rightarrow> SabotageEngine" where
  "round_one_engine u =
     \<lparr>config = SABOTAGE_CONFIG,
      round_decisions =
        [''c1'' \<mapsto>
           \<lparr>saboteur = Some ''gandalf'', objective = Some (gandalf_pick u),
            messages_remaining = 2\<rparr>],
      session_history = [''s1'' \<mapsto> [(''gandalf'', id_key (gandalf_pick u), 1)]],
      session_round_counter = [''s1'' \<mapsto> 1],
      session_correlation_ids = [''s1'' \<mapsto> {''c1''}]\<rparr>"

text \<open>
  The engine after a second round of the same session in which \<open>gandalf\<close> is picked
  again; draws that fail the activation roll; draws whose weighted pick falls in the
  second objective's share; draws with a roll of 0.99.
\<close>

definition round_two_engine :: SabotageEngine where
  "round_two_engine =
     \<lparr>config = SABOTAGE_CONFIG,
      round_decisions =
        [''c1'' \<mapsto>
           \<lparr>saboteur = Some ''gandalf'', objective = Some the_ring, messages_remaining = 2\<rparr>,
         ''c2'' \<mapsto>
           \<lparr>saboteur = Some ''gandalf'', objective = Some pedantic_rules_lawyer,
            messages_remaining = 2\<rparr>],
      session_history =
        [''s1'' \<mapsto> [(''gandalf'', ''the_ring'', 1), (''gandalf'', ''pedantic_rules_lawyer'', 2)]],
      session_round_counter = [''s1'' \<mapsto> 2],
      session_correlation_ids = [''s1'' \<mapsto> {''c2'', ''c1''}]\<rparr>"

definition failed_roll_draws :: draws where
  "failed_roll_draws = \<lparr>random_roll = 1 / 2, choice_index = 1, choices_roll = 0\<rparr>"

definition other_pick_draws :: draws where
  "other_pick_draws = \<lparr>random_roll = 0, choice_index = 1, choices_roll = 1 / 2\<rparr>"

definition late_draws :: draws where
  "late_draws = \<lparr>random_roll = 99 / 100, choice_index = 1, choices_roll = 0\<rparr>"

text \<open>
  A configuration with a probability of 3.5 and a negative cooldown, the engine
  constructed from it, and a configuration that has the \<open>enabled\<close> key only.
\<close>

definition bad_config :: sabotage_config where
  "bad_config =
     \<lparr>enabled = Some True, chance_per_round = Some (7 / 2), max_active_per_round = Some 1,
      duration_messages = Some 2, cooldown_rounds = Some (- 1)\<rparr>"

definition bad_engine :: SabotageEngine where
  "bad_engine = fresh_engine\<lparr>config := bad_config\<rparr>"

definition incomplete_config :: sabotage_config where
  "incomplete_config = empty_config\<lparr>enabled := Some True\<rparr>"


section \<open>The catalog and the random module\<close>

lemma catalog_compatible_personas:
  "compatible_personas sarah_connor = [''terminator'']"
  "compatible_personas nans_kitchen = [''your_nan'']"
  "compatible_personas raw_ingredients = [''angry_chef'']"
  "compatible_personas the_ring = [''gandalf'']"
  "compatible_personas holy_quest = [''medieval_knight'']"
  "compatible_personas the_dame = [''film_noir_detective'']"
  "compatible_personas gold_star = [''kindergarten_teacher'']"
  "compatible_personas empire_expansion = [''roman_emperor'']"
  "compatible_personas limited_time_offer = [''infomercial_host'']"
  "compatible_personas the_box = [''ships_cat'']"
  "compatible_personas tax_collector = [''roman_emperor'', ''medieval_knight'', ''film_noir_detective'']"
  "compatible_personas toddler_treatment = [''kindergarten_teacher'', ''your_nan'']"
  "compatible_personas the_duel = [''medieval_knight'', ''roman_emperor'', ''angry_chef'']"
  "compatible_personas contrarian_for_sport = [''angry_chef'', ''roman_emperor'', ''film_noir_detective'']"
  "compatible_personas pedantic_rules_lawyer = [''gandalf'', ''film_noir_detective'', ''kindergarten_teacher'']"
  "compatible_personas the_conspiracy = [''film_noir_detective'', ''terminator'', ''ships_cat'']"
  "compatible_personas one_upper = [''angry_chef'', ''roman_emperor'', ''medieval_knight'', ''infomercial_host'']"
  "compatible_personas over_sharer = [''your_nan'', ''film_noir_detective'', ''kindergarten_teacher'', ''infomercial_host'']"
  "compatible_personas secret_review = [''angry_chef'', ''infomercial_host'', ''roman_emperor'']"
  "compatible_personas identity_crisis = []"
  by (simp_all add: sarah_connor_def nans_kitchen_def raw_ingredients_def the_ring_def holy_quest_def the_dame_def gold_star_def empire_expansion_def limited_time_offer_def the_box_def tax_collector_def toddler_treatment_def the_duel_def contrarian_for_sport_def pedantic_rules_lawyer_def the_conspiracy_def one_upper_def over_sharer_def secret_review_def identity_crisis_def)

lemma catalog_id_key:
  "id_key sarah_connor = ''sarah_connor''"
  "id_key nans_kitchen = ''nans_kitchen''"
  "id_key raw_ingredients = ''raw_ingredients''"
  "id_key the_ring = ''the_ring''"
  "id_key holy_quest = ''holy_quest''"
  "id_key the_dame = ''the_dame''"
  "id_key gold_star = ''gold_star''"
  "id_key empire_expansion = ''empire_expansion''"
  "id_key limited_time_offer = ''limited_time_offer''"
  "id_key the_box = ''the_box''"
  "id_key tax_collector = ''tax_collector''"
  "id_key toddler_treatment = ''toddler_treatment''"
  "id_key the_duel = ''the_duel''"
  "id_key contrarian_for_sport = ''contrarian_for_sport''"
  "id_key pedantic_rules_lawyer = ''pedantic_rules_lawyer''"
  "id_key the_conspiracy = ''the_conspiracy''"
  "id_key one_upper = ''one_upper''"
  "id_key over_sharer = ''over_sharer''"
  "id_key secret_review = ''secret_review''"
  "id_key identity_crisis = ''identity_crisis''"
  by (simp_all add: sarah_connor_def nans_kitchen_def raw_ingredients_def the_ring_def holy_quest_def the_dame_def gold_star_def empire_expansion_def limited_time_offer_def the_box_def tax_collector_def toddler_treatment_def the_duel_def contrarian_for_sport_def pedantic_rules_lawyer_def the_conspiracy_def one_upper_def over_sharer_def secret_review_def identity_crisis_def)

lemma catalog_weight:
  "weight sarah_connor = 3"
  "weight nans_kitchen = 5"
  "weight raw_ingredients = 3"
  "weight the_ring = 3"
  "weight holy_quest = 3"
  "weight the_dame = 3"
  "weight gold_star = 5"
  "weight empire_expansion = 3"
  "weight limited_time_offer = 3"
  "weight the_box = 5"
  "weight tax_collector = 3"
  "weight toddler_treatment = 4"
  "weight the_duel = 3"
  "weight contrarian_for_sport = 5"
  "weight pedantic_rules_lawyer = 4"
  "weight the_conspiracy = 3"
  "weight one_upper = 5"
  "weight over_sharer = 4"
  "weight secret_review = 4"
  "weight identity_crisis = 1"
  by (simp_all add: sarah_connor_def nans_kitchen_def raw_ingredients_def the_ring_def holy_quest_def the_dame_def gold_star_def empire_expansion_def limited_time_offer_def the_box_def tax_collector_def toddler_treatment_def the_duel_def contrarian_for_sport_def pedantic_rules_lawyer_def the_conspiracy_def one_upper_def over_sharer_def secret_review_def identity_crisis_def)

lemma catalog_signature_for:
  "signature_for sarah_connor = Some ''terminator''"
  "signature_for nans_kitchen = Some ''your_nan''"
  "signature_for raw_ingredients = Some ''angry_chef''"
  "signature_for the_ring = Some ''gandalf''"
  "signature_for holy_quest = Some ''medieval_knight''"
  "signature_for the_dame = Some ''film_noir_detective''"
  "signature_for gold_star = Some ''kindergarten_teacher''"
  "signature_for empire_expansion = Some ''roman_emperor''"
  "signature_for limited_time_offer = Some ''infomercial_host''"
  "signature_for the_box = Some ''ships_cat''"
  "signature_for tax_collector = None"
  "signature_for toddler_treatment = None"
  "signature_for the_duel = None"
  "signature_for contrarian_for_sport = None"
  "signature_for pedantic_rules_lawyer = None"
  "signature_for the_conspiracy = None"
  "signature_for one_upper = None"
  "signature_for over_sharer = None"
  "signature_for secret_review = None"
  "signature_for identity_crisis = None"
  by (simp_all add: sarah_connor_def nans_kitchen_def raw_ingredients_def the_ring_def holy_quest_def the_dame_def gold_star_def empire_expansion_def limited_time_offer_def the_box_def tax_collector_def toddler_treatment_def the_duel_def contrarian_for_sport_def pedantic_rules_lawyer_def the_conspiracy_def one_upper_def over_sharer_def secret_review_def identity_crisis_def)

lemma compatible_in_iff:
  "obj \<in> set (compatible_in catalog p) \<longleftrightarrow>
     obj \<in> set catalog \<and> (compatible_personas obj = [] \<or> p \<in> set (compatible_personas obj))"
  by (auto simp add: compatible_in_def)

lemma compatible_gandalf:
  "get_compatible_objectives ''gandalf'' = [the_ring, pedantic_rules_lawyer, identity_crisis]"
  by (simp add: get_compatible_objectives_def compatible_in_def OBJECTIVES_def catalog_compatible_personas)

lemma bisect_right_done: "hi \<le> lo \<Longrightarrow> bisect_right a x lo hi = lo"
  by (simp add: bisect_right.simps)

lemma bisect_right_le: "lo \<le> hi \<Longrightarrow> bisect_right a x lo hi \<le> hi"
proof (induction a x lo hi rule: bisect_right.induct)
  case (1 a x lo hi)
  show ?case
  proof (cases "lo < hi")
    case False
    with "1.prems" show ?thesis by (simp add: bisect_right.simps)
  next
    case True
    let ?mid = "(lo + hi) div 2"
    show ?thesis
    proof (cases "x < real_of_int (a ! ?mid)")
      case left: True
      have "bisect_right a x lo ?mid \<le> ?mid"
        using "1.IH"(1) [OF True refl left] True by simp
      with True left show ?thesis
        by (subst bisect_right.simps) (simp add: Let_def)
    next
      case right: False
      have "bisect_right a x (?mid + 1) hi \<le> hi"
        using "1.IH"(2) [OF True refl right] True by simp
      with True right show ?thesis
        by (subst bisect_right.simps) (simp add: Let_def)
    qed
  qed
qed

lemma bisect3:
  "bisect_right [3, 7, 8] x 0 (Suc (Suc 0)) = (if x < 3 then 0 else if x < 7 then 1 else 2)"
proof -
  have b01: "bisect_right [3, 7, 8] x 0 (Suc 0) = (if x < 3 then 0 else 1)"
    by (subst bisect_right.simps) (simp add: bisect_right_done)
  show ?thesis
    by (subst bisect_right.simps) (simp add: b01 bisect_right_done)
qed

lemma random_choices_member:
  assumes "random_choices u population weights = Inr picked"
  shows "\<exists>x \<in> set population. picked = [x]"
proof -
  let ?cum = "accumulate weights"
  from assms have n: "length ?cum = length population" and ne: "?cum \<noteq> []"
    and pk: "picked = [population ! bisect_right ?cum (u * real_of_int (last ?cum)) 0 (length population - 1)]"
    by (auto simp add: random_choices_def Let_def split: if_splits)
  from n ne have pos: "0 < length population" by (cases population) auto
  have "bisect_right ?cum (u * real_of_int (last ?cum)) 0 (length population - 1) \<le> length population - 1"
    by (rule bisect_right_le) simp
  with pos have "bisect_right ?cum (u * real_of_int (last ?cum)) 0 (length population - 1) < length population"
    by arith
  then show ?thesis using pk by auto
qed

lemma weighted_pick_member: "weighted_pick u objectives = Inr obj \<Longrightarrow> obj \<in> set objectives"
  by (auto simp add: weighted_pick_def split: sum.splits list.splits dest: random_choices_member)

lemma pick_gandalf:
  "weighted_pick u [the_ring, pedantic_rules_lawyer, identity_crisis] =
     Inr (if u * 8 < 3 then the_ring
          else if u * 8 < 7 then pedantic_rules_lawyer else identity_crisis)"
  by (simp add: weighted_pick_def random_choices_def accumulate_def catalog_weight bisect3 Let_def)

lemma pick_gandalf_cooldown:
  "weighted_pick 0 [pedantic_rules_lawyer, identity_crisis] = Inr pedantic_rules_lawyer"
proof -
  have "bisect_right [4, 5] 0 0 (Suc 0) = 0"
    by (subst bisect_right.simps) (simp add: bisect_right_done)
  then show ?thesis
    by (simp add: weighted_pick_def random_choices_def accumulate_def catalog_weight Let_def)
qed

lemma recent_objectives_iff:
  "oid \<in> recent_objectives history sab rn cd \<longleftrightarrow>
     (\<exists>r. (sab, oid, r) \<in> set history \<and> rn - r \<le> cd)"
  by (force simp add: recent_objectives_def)

lemma recent_objectives_Nil: "recent_objectives [] sab rn cd = {}"
  by (simp add: recent_objectives_def)

lemma recent_objectives_Cons:
  "recent_objectives ((pk, oid, r) # h) sab rn cd =
     (if pk = sab \<and> rn - r \<le> cd then insert oid (recent_objectives h sab rn cd)
      else recent_objectives h sab rn cd)"
  by (simp add: recent_objectives_def)

section \<open>The engine: what a request leaves alone\<close>

lemma bump_round_counter_same [simp]:
  "config (bump_round_counter e sid cid) = config e"
  "round_decisions (bump_round_counter e sid cid) = round_decisions e"
  "session_history (bump_round_counter e sid cid) = session_history e"
  by (simp_all add: bump_round_counter_def Let_def)

lemma mrd_config: "config (snd (make_round_decision e rnd sid cid act)) = config e"
  by (simp add: make_round_decision_def Let_def split: option.splits sum.splits)

lemma mrd_other:
  "cid' \<noteq> cid \<Longrightarrow>
     round_decisions (snd (make_round_decision e rnd sid cid act)) cid' = round_decisions e cid'"
  by (simp add: make_round_decision_def Let_def split: option.splits sum.splits)

lemma mrd_stores:
  "make_round_decision e rnd sid cid act = (Inr u, e') \<Longrightarrow> round_decisions e' cid \<noteq> None"
  by (auto simp add: make_round_decision_def Let_def split: option.splits sum.splits if_splits)

lemma gofp_config: "config (snd (get_objective_for_persona e rnd sid cid p act)) = config e"
proof (cases "cid \<in> dom (round_decisions e)")
  case True
  then show ?thesis
    by (auto simp add: get_objective_for_persona_def split: option.splits)
next
  case False
  obtain r e1 where m: "make_round_decision e rnd sid cid act = (r, e1)"
    by (cases "make_round_decision e rnd sid cid act")
  have "config e1 = config e" using mrd_config [of e rnd sid cid act] m by simp
  with False m show ?thesis
    by (auto simp add: get_objective_for_persona_def split: option.splits sum.splits)
qed

text \<open>A request on a memoized correlation id: the whole of its effect.\<close>

lemma gofp_memo:
  assumes "round_decisions e cid = Some dec" and "is_enabled e"
  shows "get_objective_for_persona e rnd sid cid p act =
     (if saboteur dec = Some p \<and> objective dec \<noteq> None \<and> 0 < messages_remaining dec
      then (Inr (map_option prompt (objective dec)),
            e\<lparr>round_decisions :=
                 (round_decisions e)
                   (cid \<mapsto> dec\<lparr>messages_remaining := messages_remaining dec - 1\<rparr>)\<rparr>)
      else (Inr None, e))"
  using assms by (auto simp add: get_objective_for_persona_def split: option.splits)

lemma gofp_other:
  assumes "cid' \<noteq> cid"
  shows "round_decisions (snd (get_objective_for_persona e rnd sid cid p act)) cid' =
         round_decisions e cid'"
proof (cases "cid \<in> dom (round_decisions e)")
  case True
  with assms show ?thesis
    by (auto simp add: get_objective_for_persona_def split: option.splits)
next
  case False
  obtain r e1 where m: "make_round_decision e rnd sid cid act = (r, e1)"
    by (cases "make_round_decision e rnd sid cid act")
  have "round_decisions e1 cid' = round_decisions e cid'"
    using mrd_other [OF assms, of e rnd sid act] m by simp
  with False m assms show ?thesis
    by (auto simp add: get_objective_for_persona_def split: option.splits sum.splits)
qed

lemma perform_config: "config (snd (perform e c)) = config e"
  by (simp add: perform_def gofp_config)

lemma perform_enabled: "perform e c = (r, e') \<Longrightarrow> is_enabled e' = is_enabled e"
  using perform_config [of e c] by (simp add: is_enabled_def)

lemma perform_decided:
  assumes "is_enabled e"
    and "round_decisions e cid =
           Some \<lparr>saboteur = Some P, objective = Some obj, messages_remaining = d\<rparr>"
    and "perform e c = (r, e')"
  shows "round_decisions e' cid =
           Some \<lparr>saboteur = Some P, objective = Some obj,
                 messages_remaining =
                   (if call_correlation_id c = cid \<and> call_persona c = P \<and> 0 < d
                    then d - 1 else d)\<rparr>"
    and "call_correlation_id c = cid \<Longrightarrow>
           r = Inr (if call_persona c = P \<and> 0 < d then Some (prompt obj) else None)"
proof -
  show "round_decisions e' cid =
           Some \<lparr>saboteur = Some P, objective = Some obj,
                 messages_remaining =
                   (if call_correlation_id c = cid \<and> call_persona c = P \<and> 0 < d
                    then d - 1 else d)\<rparr>"
  proof (cases "call_correlation_id c = cid")
    case True
    with assms show ?thesis
      by (auto simp add: perform_def gofp_memo split: if_splits)
  next
    case False
    then have "round_decisions (snd (perform e c)) cid = round_decisions e cid"
      unfolding perform_def by (intro gofp_other) simp
    with assms False show ?thesis by simp
  qed
  show "r = Inr (if call_persona c = P \<and> 0 < d then Some (prompt obj) else None)"
    if "call_correlation_id c = cid"
    using assms that by (auto simp add: perform_def gofp_memo split: if_splits)
qed

lemma bump_round_counter_maps:
  "session_round_counter (bump_round_counter e sid cid) =
     (session_round_counter e)(sid \<mapsto> round_number_of e sid cid)"
  "session_correlation_ids (bump_round_counter e sid cid) =
     (session_correlation_ids e)(sid \<mapsto> insert cid (dd_get (session_correlation_ids e) {} sid))"
  by (auto simp add: bump_round_counter_def Let_def dd_touch_def round_number_of_def
        dd_get_def insert_absorb split: option.splits)

lemma bump_round_number [simp]:
  "dd_get (session_round_counter (bump_round_counter e sid cid)) 0 sid = round_number_of e sid cid"
  by (simp add: bump_round_counter_maps) (simp add: dd_get_def)

lemma mrd_counter:
  "session_round_counter (snd (make_round_decision e rnd sid cid act)) =
     (session_round_counter e)(sid \<mapsto> round_number_of e sid cid)"
  by (simp add: make_round_decision_def Let_def bump_round_counter_maps split: option.splits sum.splits)

lemma mrd_seen:
  "session_correlation_ids (snd (make_round_decision e rnd sid cid act)) =
     (session_correlation_ids e)(sid \<mapsto> insert cid (dd_get (session_correlation_ids e) {} sid))"
  by (simp add: make_round_decision_def Let_def bump_round_counter_maps split: option.splits sum.splits)

lemma mrd_history:
  "session_history (snd (make_round_decision e rnd sid cid act)) = session_history e
   \<or> session_history (snd (make_round_decision e rnd sid cid act)) =
        dd_touch (session_history e) [] sid
   \<or> (\<exists>dec sab obj.
         round_decisions (snd (make_round_decision e rnd sid cid act)) cid = Some dec
         \<and> saboteur dec = Some sab \<and> objective dec = Some obj
         \<and> session_history (snd (make_round_decision e rnd sid cid act)) =
             (session_history e)
               (sid \<mapsto> dd_get (session_history e) [] sid
                        @ [(sab, id_key obj, round_number_of e sid cid)]))"
  by (simp add: make_round_decision_def Let_def dd_touch_def split: option.splits sum.splits)

lemma mrd_new_decision:
  assumes "make_round_decision e rnd sid cid act = (r, e')"
    and "round_decisions e' cid = Some dec"
    and "round_decisions e cid = None"
  shows "dec = empty_decision \<or>
     (\<exists>sab obj d cd.
        dec = \<lparr>saboteur = Some sab, objective = Some obj, messages_remaining = d\<rparr>
        \<and> random_choice (choice_index rnd) act = Inr sab
        \<and> cooldown_rounds (config e) = Some cd
        \<and> duration_messages (config e) = Some d
        \<and> obj \<in> set (get_compatible_objectives sab)
        \<and> id_key obj \<notin> recent_objectives (dd_get (session_history e) [] sid) sab
                            (round_number_of e sid cid) cd)"
  using assms
  by (auto simp add: make_round_decision_def Let_def
        split: option.splits sum.splits if_splits dest!: weighted_pick_member)

lemma mrd_roll_fails:
  assumes "chance_per_round (config e) = Some chance" and "chance < random_roll rnd"
  shows "make_round_decision e rnd sid cid act =
     (Inr (), (bump_round_counter e sid cid)
                \<lparr>round_decisions := (round_decisions e)(cid \<mapsto> empty_decision)\<rparr>)"
  using assms by (simp add: make_round_decision_def Let_def)

lemma gofp_memo_frame:
  assumes "round_decisions e cid = Some dec"
    and "get_objective_for_persona e rnd sid cid p act = (r, e')"
  shows "session_round_counter e' = session_round_counter e
       \<and> session_correlation_ids e' = session_correlation_ids e
       \<and> session_history e' = session_history e"
proof (cases "is_enabled e")
  case True
  with assms show ?thesis by (auto simp add: gofp_memo split: if_splits)
next
  case False
  with assms show ?thesis by (simp add: get_objective_for_persona_def)
qed

lemma gofp_new_frame:
  assumes "is_enabled e" and "round_decisions e cid = None"
    and "get_objective_for_persona e rnd sid cid p act = (r, e')"
  shows "session_round_counter e' = session_round_counter (snd (make_round_decision e rnd sid cid act))
       \<and> session_correlation_ids e' = session_correlation_ids (snd (make_round_decision e rnd sid cid act))
       \<and> session_history e' = session_history (snd (make_round_decision e rnd sid cid act))"
  using assms
  by (cases "make_round_decision e rnd sid cid act")
     (auto simp add: get_objective_for_persona_def domIff split: sum.splits option.splits if_splits)

lemma gofp_decisions:
  assumes "get_objective_for_persona e rnd sid cid p act = (r, e')"
    and "round_decisions e' c0 = Some dec'"
  shows "(\<exists>dec. round_decisions e c0 = Some dec \<and> saboteur dec' = saboteur dec
            \<and> objective dec' = objective dec
            \<and> messages_remaining dec' \<le> messages_remaining dec)
       \<or> (c0 = cid \<and> round_decisions e cid = None \<and> is_enabled e
            \<and> (\<exists>r1 e1 dec1. make_round_decision e rnd sid cid act = (r1, e1)
                  \<and> round_decisions e1 cid = Some dec1
                  \<and> saboteur dec' = saboteur dec1 \<and> objective dec' = objective dec1
                  \<and> messages_remaining dec' \<le> messages_remaining dec1))"
proof (cases "is_enabled e")
  case False
  with assms show ?thesis by (simp add: get_objective_for_persona_def)
next
  case en: True
  show ?thesis
  proof (cases "round_decisions e cid")
    case (Some dec)
    with assms en show ?thesis
      by (auto simp add: gofp_memo split: if_splits)
  next
    case None
    obtain r1 e1 where m: "make_round_decision e rnd sid cid act = (r1, e1)"
      by (cases "make_round_decision e rnd sid cid act")
    have other: "round_decisions e1 c0 = round_decisions e c0" if "c0 \<noteq> cid"
      using mrd_other [OF that, of e rnd sid act] m by simp
    from assms en None m have e': "e' = e1 \<or>
       (\<exists>dec1. round_decisions e1 cid = Some dec1 \<and>
           e' = e1\<lparr>round_decisions := (round_decisions e1)(cid \<mapsto> dec1\<lparr>messages_remaining := messages_remaining dec1 - 1\<rparr>)\<rparr>)"
      by (auto simp add: get_objective_for_persona_def domIff split: sum.splits option.splits if_splits)
    show ?thesis
    proof (cases "c0 = cid")
      case True
      with e' assms(2) None en m show ?thesis by auto
    next
      case False
      with e' assms(2) other show ?thesis by auto
    qed
  qed
qed


lemma gofp_seen:
  "session_correlation_ids (snd (get_objective_for_persona e rnd sid cid p act)) =
     session_correlation_ids e
   \<or> session_correlation_ids (snd (get_objective_for_persona e rnd sid cid p act)) =
        (session_correlation_ids e)
          (sid \<mapsto> insert cid (dd_get (session_correlation_ids e) {} sid))"
proof (cases "is_enabled e")
  case False
  then show ?thesis by (simp add: get_objective_for_persona_def)
next
  case en: True
  obtain r e' where g: "get_objective_for_persona e rnd sid cid p act = (r, e')"
    by (cases "get_objective_for_persona e rnd sid cid p act")
  show ?thesis
  proof (cases "round_decisions e cid")
    case None
    from gofp_new_frame [OF en None g] mrd_seen [of e rnd sid cid act] g
    show ?thesis by simp
  next
    case (Some dec)
    from gofp_memo_frame [OF Some g] g show ?thesis by simp
  qed
qed




section \<open>The scenario, evaluated\<close>

lemma init_default: "SabotageEngine_init None = Inr fresh_engine"
  by (simp add: SabotageEngine_init_def fresh_engine_def)

lemma fresh_bump:
  "bump_round_counter fresh_engine ''s1'' ''c1'' =
     fresh_engine\<lparr>session_round_counter := [''s1'' \<mapsto> 1],
                  session_correlation_ids := [''s1'' \<mapsto> {''c1''}]\<rparr>"
  by (simp add: bump_round_counter_def fresh_engine_def dd_get_def dd_touch_def Let_def)

lemma fresh_round_one:
  assumes "random_roll rnd \<le> 33 / 100" and "choice_index rnd mod 3 = 1"
  shows "make_round_decision fresh_engine rnd ''s1'' ''c1'' scenario_personas =
    (Inr (), round_one_engine (choices_roll rnd))"
  using assms
  by (simp add: make_round_decision_def fresh_bump Let_def)
     (simp add: fresh_engine_def SABOTAGE_CONFIG_def dd_get_def
        dd_touch_def random_choice_def scenario_personas_def compatible_gandalf
        recent_objectives_def pick_gandalf round_one_engine_def gandalf_pick_def)

lemma round_one_decided: "round_one_engine 0 = decided_engine"
  by (simp add: round_one_engine_def decided_engine_def gandalf_pick_def catalog_id_key)

lemma first_call_angry_chef:
  "perform fresh_engine (mk_call ''s1'' ''c1'' ''angry_chef'') = (Inr None, decided_engine)"
proof -
  have "make_round_decision fresh_engine scenario_draws ''s1'' ''c1'' scenario_personas =
      (Inr (), decided_engine)"
    using fresh_round_one [of scenario_draws] round_one_decided
    by (simp add: scenario_draws_def)
  then show ?thesis
    by (simp add: perform_def mk_call_def get_objective_for_persona_def is_enabled_def
          fresh_engine_def SABOTAGE_CONFIG_def)
       (simp add: decided_engine_def)
qed

lemma reachable_decided: "reachable decided_engine"
  using reachable_call [OF reachable_init [OF init_default] first_call_angry_chef] .

lemma run_first_call:
  "run_calls fresh_engine [mk_call ''s1'' ''c1'' ''angry_chef''] = ([Inr None], decided_engine)"
  by (simp add: first_call_angry_chef)

lemma forced_gandalf:
  "random_choice k scenario_personas = Inr ''gandalf'' \<longleftrightarrow> k mod 3 = 1"
proof -
  have "k mod 3 = 0 \<or> k mod 3 = 1 \<or> k mod 3 = 2" by arith
  then show ?thesis
    by (auto simp add: random_choice_def scenario_personas_def)
qed

lemma gofp_fresh_gandalf:
  assumes "random_roll rnd \<le> 33 / 100" and "choice_index rnd mod 3 = 1"
  shows "get_objective_for_persona fresh_engine rnd ''s1'' ''c1'' ''gandalf'' scenario_personas =
     (Inr (Some (prompt (gandalf_pick (choices_roll rnd)))),
      (round_one_engine (choices_roll rnd))
        \<lparr>round_decisions :=
           [''c1'' \<mapsto> \<lparr>saboteur = Some ''gandalf'',
                        objective = Some (gandalf_pick (choices_roll rnd)),
                        messages_remaining = 1\<rparr>]\<rparr>)"
proof -
  have en: "is_enabled fresh_engine"
    by (simp add: is_enabled_def fresh_engine_def SABOTAGE_CONFIG_def)
  have new: "''c1'' \<notin> dom (round_decisions fresh_engine)"
    by (simp add: fresh_engine_def)
  show ?thesis
    by (simp add: get_objective_for_persona_def en new fresh_round_one [OF assms])
       (simp add: round_one_engine_def)
qed

lemma decided_bump:
  "bump_round_counter decided_engine ''s1'' ''c2'' =
     decided_engine\<lparr>session_round_counter := [''s1'' \<mapsto> 2],
                    session_correlation_ids := [''s1'' \<mapsto> {''c2'', ''c1''}]\<rparr>"
  by (simp add: bump_round_counter_def decided_engine_def dd_get_def dd_touch_def Let_def)

lemma second_round:
  "make_round_decision decided_engine scenario_draws ''s1'' ''c2'' scenario_personas =
     (Inr (), round_two_engine)"
  by (simp add: make_round_decision_def decided_bump Let_def)
     (simp add: decided_engine_def SABOTAGE_CONFIG_def scenario_draws_def dd_get_def
        dd_touch_def random_choice_def scenario_personas_def compatible_gandalf
        recent_objectives_Nil recent_objectives_Cons catalog_id_key pick_gandalf_cooldown
        round_two_engine_def)

lemma second_round_gandalf:
  "get_objective_for_persona decided_engine scenario_draws ''s1'' ''c2'' ''gandalf''
     scenario_personas =
     (Inr (Some (prompt pedantic_rules_lawyer)),
      round_two_engine
        \<lparr>round_decisions :=
           (round_decisions round_two_engine)
             (''c2'' \<mapsto> \<lparr>saboteur = Some ''gandalf'', objective = Some pedantic_rules_lawyer,
                          messages_remaining = 1\<rparr>)\<rparr>)"
proof -
  have en: "is_enabled decided_engine"
    by (simp add: is_enabled_def decided_engine_def SABOTAGE_CONFIG_def)
  have new: "''c2'' \<notin> dom (round_decisions decided_engine)"
    by (simp add: decided_engine_def)
  show ?thesis
    by (simp add: get_objective_for_persona_def en new second_round)
       (simp add: round_two_engine_def)
qed

section \<open>Round stability and the duration bound\<close>

lemma run_calls_decided:
  assumes "is_enabled e"
    and "round_decisions e cid =
           Some \<lparr>saboteur = Some P, objective = Some obj, messages_remaining = d\<rparr>"
    and "run_calls e cs = (rs, e')"
  shows "length rs = length cs
    \<and> (\<forall>i<length cs. call_correlation_id (cs ! i) = cid \<longrightarrow>
          rs ! i =
            Inr (if call_persona (cs ! i) = P
                    \<and> int (length (filter (\<lambda>c. call_correlation_id c = cid \<and> call_persona c = P)
                                    (take i cs))) < d
                 then Some (prompt obj) else None))
    \<and> round_decisions e' cid =
        Some \<lparr>saboteur = Some P, objective = Some obj,
              messages_remaining =
                d - min (max d 0)
                      (int (length (filter (\<lambda>c. call_correlation_id c = cid \<and> call_persona c = P)
                                      cs)))\<rparr>"
  using assms
proof (induction cs arbitrary: e d rs)
  case Nil
  then show ?case by simp
next
  case (Cons c cs)
  let ?mine = "\<lambda>c. call_correlation_id c = cid \<and> call_persona c = P"
  obtain r e1 where p: "perform e c = (r, e1)" by (cases "perform e c")
  obtain rs1 where rc: "run_calls e1 cs = (rs1, e')" and rs: "rs = r # rs1"
    using Cons.prems(3) p by (auto split: prod.splits)
  let ?d1 = "if ?mine c \<and> 0 < d then d - 1 else d"
  have en1: "is_enabled e1" using perform_enabled [OF p] Cons.prems(1) by simp
  have dec1: "round_decisions e1 cid =
      Some \<lparr>saboteur = Some P, objective = Some obj, messages_remaining = ?d1\<rparr>"
    using perform_decided(1) [OF Cons.prems(1,2) p] by simp
  have r0: "call_correlation_id c = cid \<Longrightarrow>
      r = Inr (if call_persona c = P \<and> 0 < d then Some (prompt obj) else None)"
    using perform_decided(2) [OF Cons.prems(1,2) p] .
  note IH = Cons.IH [OF en1 dec1 rc]
  have len: "length rs = length (c # cs)" using IH rs by simp
  have res: "rs ! i =
      Inr (if call_persona ((c # cs) ! i) = P
              \<and> int (length (filter ?mine (take i (c # cs)))) < d
           then Some (prompt obj) else None)"
    if "i < length (c # cs)" and "call_correlation_id ((c # cs) ! i) = cid" for i
  proof (cases i)
    case 0
    with that r0 rs show ?thesis by simp
  next
    case (Suc j)
    with that have j: "j < length cs" "call_correlation_id (cs ! j) = cid" by simp_all
    from IH j have "rs1 ! j =
        Inr (if call_persona (cs ! j) = P \<and> int (length (filter ?mine (take j cs))) < ?d1
             then Some (prompt obj) else None)" by blast
    with Suc rs show ?thesis by (auto split: if_splits)
  qed
  have fin: "round_decisions e' cid =
      Some \<lparr>saboteur = Some P, objective = Some obj,
            messages_remaining = d - min (max d 0) (int (length (filter ?mine (c # cs))))\<rparr>"
    using IH by (auto split: if_splits)
  from len res fin show ?case by blast
qed

text \<open>
  The request that opens a round. When the engine holds no decision for \<open>cid\<close> and the
  request leaves one that names a saboteur and an objective, then the engine is enabled,
  \<open>_make_round_decision\<close> returned, and the decision it stored had
  \<open>messages_remaining = duration_messages\<close>; the request itself is answered from that
  decision, so it already takes one message off when it is the saboteur's.
\<close>

lemma mrd_raises:
  "make_round_decision e rnd sid cid act = (Inl err, e') \<Longrightarrow>
     round_decisions e' = round_decisions e"
  by (auto simp add: make_round_decision_def Let_def split: option.splits sum.splits if_splits)

lemma perform_opening:
  assumes "round_decisions e cid = None"
    and "call_correlation_id c0 = cid"
    and "perform e c0 = (r0, e1)"
    and "round_decisions e1 cid = Some dec"
    and "saboteur dec = Some P" and "objective dec = Some obj"
    and "duration_messages (config e) = Some d"
  shows "is_enabled e1"
    and "dec = \<lparr>saboteur = Some P, objective = Some obj,
                messages_remaining = (if call_persona c0 = P \<and> 0 < d then d - 1 else d)\<rparr>"
    and "r0 = Inr (if call_persona c0 = P \<and> 0 < d then Some (prompt obj) else None)"
proof -
  have en: "is_enabled e"
  proof (rule ccontr)
    assume "\<not> is_enabled e"
    with assms(3) have "e1 = e" by (simp add: perform_def get_objective_for_persona_def)
    with assms(1,4) show False by simp
  qed
  then show "is_enabled e1" using perform_enabled [OF assms(3)] by simp
  obtain r1 em where m: "make_round_decision e (call_draws c0) (call_session_id c0) cid
      (call_active_personas c0) = (r1, em)"
    by (cases "make_round_decision e (call_draws c0) (call_session_id c0) cid
      (call_active_personas c0)")
  have g: "get_objective_for_persona e (call_draws c0) (call_session_id c0) cid
      (call_persona c0) (call_active_personas c0) = (r0, e1)"
    using assms(2,3) by (simp add: perform_def)
  show "dec = \<lparr>saboteur = Some P, objective = Some obj,
                messages_remaining = (if call_persona c0 = P \<and> 0 < d then d - 1 else d)\<rparr>"
    and "r0 = Inr (if call_persona c0 = P \<and> 0 < d then Some (prompt obj) else None)"
  proof -
    have notl: "\<not> isl r1"
    proof
      assume "isl r1"
      then obtain err where "r1 = Inl err" by (cases r1) auto
      with m mrd_raises [of e _ _ cid _ err em] g en assms(1)
      have "round_decisions e1 cid = None"
        by (auto simp add: get_objective_for_persona_def domIff)
      with assms(4) show False by simp
    qed
    then obtain u where r1: "r1 = Inr u" by (cases r1) auto
    have "round_decisions em cid \<noteq> None"
      using m r1 by (intro mrd_stores [of e "call_draws c0" "call_session_id c0" cid
            "call_active_personas c0" u em]) simp
    then obtain decm where dm: "round_decisions em cid = Some decm" by auto
    from mrd_new_decision [OF m dm assms(1)]
    consider "decm = empty_decision"
      | sab ob dd where "decm = \<lparr>saboteur = Some sab, objective = Some ob, messages_remaining = dd\<rparr>"
          "duration_messages (config e) = Some dd"
      by blast
    then have both: "dec = \<lparr>saboteur = Some P, objective = Some obj,
                messages_remaining = (if call_persona c0 = P \<and> 0 < d then d - 1 else d)\<rparr>
        \<and> r0 = Inr (if call_persona c0 = P \<and> 0 < d then Some (prompt obj) else None)"
    proof cases
      case 1
      with g en assms(1,4,5) m r1 dm show ?thesis
        by (auto simp add: get_objective_for_persona_def domIff empty_decision_def)
    next
      case 2
      with g en assms(1,4,5,6,7) m r1 dm show ?thesis
        by (auto simp add: get_objective_for_persona_def domIff split: if_splits)
    qed
    from both show "dec = \<lparr>saboteur = Some P, objective = Some obj,
                messages_remaining = (if call_persona c0 = P \<and> 0 < d then d - 1 else d)\<rparr>"
      by simp
    from both show "r0 = Inr (if call_persona c0 = P \<and> 0 < d then Some (prompt obj) else None)"
      by simp
  qed
qed

lemma opening_decision:
  assumes "round_decisions e cid = None"
    and "call_correlation_id c0 = cid"
    and "round_decisions (snd (perform e c0)) cid = Some dec"
    and "saboteur dec = Some P" and "objective dec = Some obj"
    and "duration_messages (config e) = Some d"
  shows "round_decisions
           (snd (make_round_decision e (call_draws c0) (call_session_id c0) cid
                   (call_active_personas c0))) cid =
         Some \<lparr>saboteur = Some P, objective = Some obj, messages_remaining = d\<rparr>"
proof -
  obtain r0 e1 where p: "perform e c0 = (r0, e1)" by (cases "perform e c0")
  obtain r1 em where m: "make_round_decision e (call_draws c0) (call_session_id c0) cid
      (call_active_personas c0) = (r1, em)"
    by (cases "make_round_decision e (call_draws c0) (call_session_id c0) cid
      (call_active_personas c0)")
  have d1: "round_decisions e1 cid = Some dec" using assms(3) p by simp
  have g: "get_objective_for_persona e (call_draws c0) (call_session_id c0) cid
      (call_persona c0) (call_active_personas c0) = (r0, e1)"
    using assms(2) p by (simp add: perform_def)
  from gofp_decisions [OF g d1] assms(1) m
  obtain decm where dm: "round_decisions em cid = Some decm"
    "saboteur dec = saboteur decm" "objective dec = objective decm" by auto
  from mrd_new_decision [OF m dm(1) assms(1)] dm(2,3) assms(4,5,6) m dm(1)
  show ?thesis by (auto simp add: empty_decision_def)
qed

text \<open>
  C1. Let \<open>c0\<close> be the request that opens the round of the correlation id \<open>cid\<close>: the
  engine holds no decision for \<open>cid\<close> before it, its configuration has
  \<open>duration_messages = d\<close>, and the decision found under \<open>cid\<close> after it assigns the
  objective \<open>obj\<close> to the saboteur \<open>P\<close>. Then \<open>_make_round_decision\<close> stored that
  assignment with \<open>messages_remaining = d\<close>. Run \<open>c0\<close> and after it any list of
  requests (any sessions, personas and draws, requests for other correlation ids
  interleaved). Every request for \<open>cid\<close>, the opening one included, returns the prompt
  of \<open>obj\<close> when it is for \<open>P\<close> and fewer than \<open>d\<close> requests for \<open>cid\<close> and \<open>P\<close> came
  before it, and none otherwise: the first \<open>d\<close> requests of \<open>P\<close> get the prompt, the
  later ones and those of every other persona get none. At the end
  \<open>messages_remaining\<close> is \<open>d\<close> less the number of prompts handed out, which counts the
  requests of \<open>P\<close> only, so a request of another persona does not change it.
\<close>

theorem round_stability_and_duration:
  assumes "round_decisions e cid = None"
    and "call_correlation_id c0 = cid"
    and "duration_messages (config e) = Some d"
    and "run_calls e (c0 # cs) = (rs, e')"
    and "round_decisions (snd (perform e c0)) cid = Some dec"
    and "saboteur dec = Some P" and "objective dec = Some obj"
  shows "round_decisions
           (snd (make_round_decision e (call_draws c0) (call_session_id c0) cid
                   (call_active_personas c0))) cid =
         Some \<lparr>saboteur = Some P, objective = Some obj, messages_remaining = d\<rparr>
    \<and> length rs = length (c0 # cs)
    \<and> (\<forall>i<length (c0 # cs). call_correlation_id ((c0 # cs) ! i) = cid \<longrightarrow>
          rs ! i =
            Inr (if call_persona ((c0 # cs) ! i) = P
                    \<and> int (length (filter (\<lambda>c. call_correlation_id c = cid \<and> call_persona c = P)
                                    (take i (c0 # cs)))) < d
                 then Some (prompt obj) else None))
    \<and> round_decisions e' cid =
        Some \<lparr>saboteur = Some P, objective = Some obj,
              messages_remaining =
                d - min (max d 0)
                      (int (length (filter (\<lambda>c. call_correlation_id c = cid \<and> call_persona c = P)
                                      (c0 # cs))))\<rparr>"
proof -
  let ?mine = "\<lambda>c. call_correlation_id c = cid \<and> call_persona c = P"
  obtain r0 e1 where p: "perform e c0 = (r0, e1)" by (cases "perform e c0")
  obtain rs1 where rc: "run_calls e1 cs = (rs1, e')" and rs: "rs = r0 # rs1"
    using assms(4) p by (auto split: prod.splits)
  let ?d1 = "if call_persona c0 = P \<and> 0 < d then d - 1 else d"
  have d1: "round_decisions e1 cid = Some dec" using assms(5) p by simp
  note op = perform_opening [OF assms(1,2) p d1 assms(6,7,3)]
  have dec1: "round_decisions e1 cid =
      Some \<lparr>saboteur = Some P, objective = Some obj, messages_remaining = ?d1\<rparr>"
    using d1 op(2) by simp
  note rest = run_calls_decided [OF op(1) dec1 rc]
  have len: "length rs = length (c0 # cs)" using rest rs by simp
  have res: "rs ! i =
      Inr (if call_persona ((c0 # cs) ! i) = P
              \<and> int (length (filter ?mine (take i (c0 # cs)))) < d
           then Some (prompt obj) else None)"
    if "i < length (c0 # cs)" and "call_correlation_id ((c0 # cs) ! i) = cid" for i
  proof (cases i)
    case 0
    with op(3) rs show ?thesis by simp
  next
    case (Suc j)
    with that have j: "j < length cs" "call_correlation_id (cs ! j) = cid" by simp_all
    from rest j have "rs1 ! j =
        Inr (if call_persona (cs ! j) = P \<and> int (length (filter ?mine (take j cs))) < ?d1
             then Some (prompt obj) else None)" by blast
    with Suc rs assms(2) show ?thesis by (auto split: if_splits)
  qed
  have fin: "round_decisions e' cid =
      Some \<lparr>saboteur = Some P, objective = Some obj,
            messages_remaining = d - min (max d 0) (int (length (filter ?mine (c0 # cs))))\<rparr>"
    using rest assms(2) by (auto split: if_splits)
  note ini = opening_decision [OF assms(1,2,5,6,7,3)]
  from ini len res fin show ?thesis by blast
qed

theorem round_stability_and_duration_witness:
  "round_decisions fresh_engine ''c1'' = None
   \<and> duration_messages (config fresh_engine) = Some 2
   \<and> round_decisions (snd (perform fresh_engine (mk_call ''s1'' ''c1'' ''gandalf''))) ''c1'' =
       Some \<lparr>saboteur = Some ''gandalf'', objective = Some the_ring, messages_remaining = 1\<rparr>
   \<and> round_decisions
        (snd (make_round_decision fresh_engine scenario_draws ''s1'' ''c1'' scenario_personas))
        ''c1'' =
       Some \<lparr>saboteur = Some ''gandalf'', objective = Some the_ring, messages_remaining = 2\<rparr>
   \<and> fst (run_calls fresh_engine replay_calls) ! 0 = Inr (Some (prompt the_ring))
   \<and> fst (run_calls fresh_engine replay_calls) ! 1 = Inr None
   \<and> fst (run_calls fresh_engine replay_calls) ! 2 = Inr (Some (prompt the_ring))
   \<and> fst (run_calls fresh_engine replay_calls) ! 3 = Inr None
   \<and> fst (run_calls fresh_engine replay_calls) ! 4 = Inr None
   \<and> round_decisions (snd (run_calls fresh_engine replay_calls)) ''c1'' =
       Some \<lparr>saboteur = Some ''gandalf'', objective = Some the_ring, messages_remaining = 0\<rparr>"
proof -
  let ?c0 = "mk_call ''s1'' ''c1'' ''gandalf''"
  let ?cs = "[mk_call ''s1'' ''c1'' ''angry_chef'', mk_call ''s1'' ''c1'' ''gandalf'',
              mk_call ''s1'' ''c1'' ''your_nan'', mk_call ''s1'' ''c1'' ''gandalf'']"
  let ?rs = "fst (run_calls fresh_engine replay_calls)"
  have oc: "replay_calls = ?c0 # ?cs" by (simp add: replay_calls_def)
  have n: "round_decisions fresh_engine ''c1'' = None" by (simp add: fresh_engine_def)
  have c: "call_correlation_id ?c0 = ''c1''" by (simp add: mk_call_def)
  have du: "duration_messages (config fresh_engine) = Some 2"
    by (simp add: fresh_engine_def SABOTAGE_CONFIG_def)
  have a: "random_roll scenario_draws \<le> 33 / 100" by (simp add: scenario_draws_def)
  have b: "choice_index scenario_draws mod 3 = 1" by (simp add: scenario_draws_def)
  have dec: "round_decisions (snd (perform fresh_engine ?c0)) ''c1'' =
       Some \<lparr>saboteur = Some ''gandalf'', objective = Some the_ring, messages_remaining = 1\<rparr>"
    using gofp_fresh_gandalf [OF a b]
    by (simp add: perform_def mk_call_def) (simp add: scenario_draws_def gandalf_pick_def)
  have run: "run_calls fresh_engine (?c0 # ?cs) =
      (?rs, snd (run_calls fresh_engine replay_calls))"
    by (simp only: oc [symmetric] prod.collapse)
  note t = round_stability_and_duration [OF n c du run dec]
  from t have ini: "round_decisions
        (snd (make_round_decision fresh_engine scenario_draws ''s1'' ''c1'' scenario_personas))
        ''c1'' =
       Some \<lparr>saboteur = Some ''gandalf'', objective = Some the_ring, messages_remaining = 2\<rparr>"
    by (simp add: mk_call_def)
  from t have r: "\<And>i. i < 5 \<Longrightarrow> call_correlation_id ((?c0 # ?cs) ! i) = ''c1'' \<Longrightarrow>
      ?rs ! i =
        Inr (if call_persona ((?c0 # ?cs) ! i) = ''gandalf''
                \<and> int (length (filter (\<lambda>c. call_correlation_id c = ''c1''
                                            \<and> call_persona c = ''gandalf'')
                                (take i (?c0 # ?cs)))) < 2
             then Some (prompt the_ring) else None)"
    by simp
  have r0: "?rs ! 0 = Inr (Some (prompt the_ring))"
    using r [of 0] by (simp add: mk_call_def)
  have r1: "?rs ! 1 = Inr None"
    using r [of 1] by (simp add: mk_call_def)
  have r2: "?rs ! 2 = Inr (Some (prompt the_ring))"
    using r [of 2] by (simp add: mk_call_def)
  have r3: "?rs ! 3 = Inr None"
    using r [of 3] by (simp add: mk_call_def)
  have r4: "?rs ! 4 = Inr None"
    using r [of 4] by (simp add: mk_call_def)
  have fin: "round_decisions (snd (run_calls fresh_engine replay_calls)) ''c1'' =
       Some \<lparr>saboteur = Some ''gandalf'', objective = Some the_ring, messages_remaining = 0\<rparr>"
    using t by (simp add: mk_call_def)
  from n du dec ini r0 r1 r2 r3 r4 fin show ?thesis by blast
qed

section \<open>Cooldown\<close>

lemma mrd_records:
  assumes "make_round_decision e rnd sid cid act = (r, e')"
    and "round_decisions e' cid = Some dec"
    and "round_decisions e cid = None"
    and "saboteur dec = Some sab" and "objective dec = Some obj"
  shows "session_history e' sid =
           Some (dd_get (session_history e) [] sid @ [(sab, id_key obj, round_number_of e sid cid)])"
  using assms
  by (auto simp add: make_round_decision_def Let_def empty_decision_def
        split: option.splits sum.splits if_splits)

lemma gofp_history_mono:
  "set (dd_get (session_history e) [] s)
     \<subseteq> set (dd_get (session_history (snd (get_objective_for_persona e rnd sid cid p act))) [] s)"
proof (cases "is_enabled e")
  case False
  then show ?thesis by (simp add: get_objective_for_persona_def)
next
  case en: True
  obtain r e' where g: "get_objective_for_persona e rnd sid cid p act = (r, e')"
    by (cases "get_objective_for_persona e rnd sid cid p act")
  show ?thesis
  proof (cases "round_decisions e cid")
    case (Some dec)
    from gofp_memo_frame [OF Some g] g show ?thesis by simp
  next
    case None
    from gofp_new_frame [OF en None g]
    have h: "session_history e' = session_history (snd (make_round_decision e rnd sid cid act))"
      by simp
    from mrd_history [of e rnd sid cid act] h g show ?thesis
      by (auto simp add: dd_get_def dd_touch_def split: option.splits if_splits)
  qed
qed

lemma run_calls_history_mono:
  "run_calls e cs = (rs, e') \<Longrightarrow>
     set (dd_get (session_history e) [] s) \<subseteq> set (dd_get (session_history e') [] s)"
proof (induction cs arbitrary: e rs)
  case Nil
  then show ?case by simp
next
  case (Cons c cs)
  obtain r e1 where p: "perform e c = (r, e1)" by (cases "perform e c")
  obtain rs1 where rc: "run_calls e1 cs = (rs1, e')"
    using Cons.prems p by (auto split: prod.splits)
  have "set (dd_get (session_history e) [] s) \<subseteq> set (dd_get (session_history e1) [] s)"
    using gofp_history_mono [of e s "call_draws c" "call_session_id c" "call_correlation_id c"
        "call_persona c" "call_active_personas c"] p
    by (simp add: perform_def)
  with Cons.IH [OF rc] show ?case by blast
qed

lemma cooldown_step:
  assumes "(P, oid, R) \<in> set (dd_get (session_history e) [] sid)"
    and "round_decisions e cid = None"
    and "cooldown_rounds (config e) = Some cd"
    and "get_objective_for_persona e rnd sid cid p act = (r, e')"
    and "dd_get (session_round_counter e') 0 sid - R \<le> cd"
  shows "(\<forall>obj \<in> set (filter (\<lambda>obj. id_key obj \<notin>
                                 recent_objectives (dd_get (session_history e) [] sid) P
                                   (dd_get (session_round_counter e') 0 sid) cd)
                         (get_compatible_objectives P)).
            id_key obj \<noteq> oid)
       \<and> (\<forall>dec obj. round_decisions e' cid = Some dec \<longrightarrow> saboteur dec = Some P \<longrightarrow>
             objective dec = Some obj \<longrightarrow> id_key obj \<noteq> oid)
       \<and> (dd_get (session_history e') [] sid = dd_get (session_history e) [] sid
          \<or> (\<exists>sab (obj::Objective). dd_get (session_history e') [] sid =
                 dd_get (session_history e) [] sid
                   @ [(sab, id_key obj, dd_get (session_round_counter e') 0 sid)]
               \<and> (sab = P \<longrightarrow> id_key obj \<noteq> oid)))"
proof -
  let ?h = "dd_get (session_history e) [] sid"
  let ?R' = "dd_get (session_round_counter e') 0 sid"
  have recent: "oid \<in> recent_objectives ?h P ?R' cd"
    using assms(1,5) by (auto simp add: recent_objectives_iff)
  then have cand: "\<forall>obj \<in> set (filter (\<lambda>obj. id_key obj \<notin> recent_objectives ?h P ?R' cd)
                         (get_compatible_objectives P)). id_key obj \<noteq> oid"
    by auto
  show ?thesis
  proof (cases "is_enabled e")
    case False
    with assms(2,4) have "e' = e" by (simp add: get_objective_for_persona_def)
    with assms(2) cand show ?thesis by simp
  next
    case en: True
    obtain r1 e1 where m: "make_round_decision e rnd sid cid act = (r1, e1)"
      by (cases "make_round_decision e rnd sid cid act")
    from gofp_new_frame [OF en assms(2,4)] m
    have fr: "session_round_counter e' = session_round_counter e1"
      "session_history e' = session_history e1" by simp_all
    have rn: "?R' = round_number_of e sid cid"
      using fr(1) mrd_counter [of e rnd sid cid act] m by (simp add: dd_get_def)
    have dec: "id_key obj \<noteq> oid"
      if d: "round_decisions e' cid = Some dec" and s: "saboteur dec = Some P"
        and o: "objective dec = Some obj" for dec obj
    proof -
      from gofp_decisions [OF assms(4) d] assms(2) m
      obtain dec1 where d1: "round_decisions e1 cid = Some dec1"
        "saboteur dec = saboteur dec1" "objective dec = objective dec1" by auto
      from mrd_new_decision [OF m d1(1) assms(2)] d1 s o assms(3)
      have "id_key obj \<notin> recent_objectives ?h P (round_number_of e sid cid) cd"
        by (auto simp add: empty_decision_def)
      with recent rn show ?thesis by auto
    qed
    have hist: "dd_get (session_history e') [] sid = ?h
          \<or> (\<exists>sab (obj::Objective). dd_get (session_history e') [] sid = ?h @ [(sab, id_key obj, ?R')]
               \<and> (sab = P \<longrightarrow> id_key obj \<noteq> oid))"
    proof -
      from mrd_history [of e rnd sid cid act] m
      consider "session_history e1 = session_history e"
        | "session_history e1 = dd_touch (session_history e) [] sid"
        | dec1 sab obj where "round_decisions e1 cid = Some dec1" "saboteur dec1 = Some sab"
            "objective dec1 = Some obj"
            "session_history e1 =
               (session_history e)(sid \<mapsto> ?h @ [(sab, id_key obj, round_number_of e sid cid)])"
        by auto
      then show ?thesis
      proof cases
        case 1
        with fr show ?thesis by simp
      next
        case 2
        with fr show ?thesis by (simp add: dd_touch_def dd_get_def)
      next
        case 3
        have "sab = P \<longrightarrow> id_key obj \<noteq> oid"
        proof
          assume sp: "sab = P"
          from mrd_new_decision [OF m 3(1) assms(2)] 3(2,3) sp assms(3)
          have "id_key obj \<notin> recent_objectives ?h P (round_number_of e sid cid) cd"
            by (auto simp add: empty_decision_def)
          with recent rn show "id_key obj \<noteq> oid" by auto
        qed
        then have imp: "sab = P \<longrightarrow> id_key obj \<noteq> oid" .
        have eq: "dd_get (session_history e') [] sid = ?h @ [(sab, id_key obj, ?R')]"
          using 3(4) fr(2) rn by (simp add: dd_get_def)
        have "\<exists>sab (obj::Objective). dd_get (session_history e') [] sid =
                 ?h @ [(sab, id_key obj, ?R')] \<and> (sab = P \<longrightarrow> id_key obj \<noteq> oid)"
          using eq imp by blast
        then show ?thesis by (rule disjI2)
      qed
    qed
    from cand dec hist show ?thesis by blast
  qed
qed

lemma gofp_records:
  assumes "round_decisions e cid = None"
    and "get_objective_for_persona e rnd sid cid p act = (r, e')"
    and "round_decisions e' cid = Some dec"
    and "saboteur dec = Some sab" and "objective dec = Some obj"
  shows "dd_get (session_history e') [] sid =
           dd_get (session_history e) [] sid
             @ [(sab, id_key obj, dd_get (session_round_counter e') 0 sid)]"
proof (cases "is_enabled e")
  case False
  with assms(2) have "e' = e" by (simp add: get_objective_for_persona_def)
  with assms(1,3) show ?thesis by simp
next
  case en: True
  obtain r1 e1 where m: "make_round_decision e rnd sid cid act = (r1, e1)"
    by (cases "make_round_decision e rnd sid cid act")
  from gofp_new_frame [OF en assms(1,2)] m
  have fr: "session_round_counter e' = session_round_counter e1"
    "session_history e' = session_history e1" by simp_all
  have rn: "dd_get (session_round_counter e') 0 sid = round_number_of e sid cid"
    using fr(1) mrd_counter [of e rnd sid cid act] m by (simp add: dd_get_def)
  from gofp_decisions [OF assms(2,3)] assms(1) m
  obtain dec1 where d1: "round_decisions e1 cid = Some dec1"
    "saboteur dec = saboteur dec1" "objective dec = objective dec1" by auto
  from mrd_records [OF m d1(1) assms(1)] d1(2,3) assms(4,5)
  have "session_history e1 sid =
      Some (dd_get (session_history e) [] sid @ [(sab, id_key obj, round_number_of e sid cid)])"
    by simp
  with fr(2) rn show ?thesis by (simp add: dd_get_def)
qed

text \<open>
  C2. Let the cooldown history of session \<open>sid\<close> hold the entry \<open>(P, oid, R)\<close>:
  the objective with id \<open>oid\<close> was assigned to persona \<open>P\<close> in round \<open>R\<close>. After
  any further requests, take a request of that session that opens a new round (its
  correlation id has no decision yet), and let \<open>R'\<close> be the session's round number
  after it, with \<open>R' - R \<le> cooldown_rounds\<close>. Then no candidate of \<open>P\<close> that passes
  the cooldown filter of round \<open>R'\<close> has the id \<open>oid\<close>; the decision stored for the
  round, if \<open>P\<close> is its saboteur, does not carry that objective; the history gains no
  entry, or one entry for round \<open>R'\<close>, which is not \<open>(P, oid, R')\<close>; and an
  assignment made in this round is recorded as the last entry of the history.
\<close>

theorem cooldown_enforced:
  assumes "(P, oid, R) \<in> set (dd_get (session_history e0) [] sid)"
    and "run_calls e0 cs = (rs0, e)"
    and "round_decisions e cid = None"
    and "cooldown_rounds (config e) = Some cd"
    and "get_objective_for_persona e rnd sid cid p act = (r, e')"
    and "dd_get (session_round_counter e') 0 sid - R \<le> cd"
  shows "(\<forall>obj \<in> set (filter (\<lambda>obj. id_key obj \<notin>
                                 recent_objectives (dd_get (session_history e) [] sid) P
                                   (dd_get (session_round_counter e') 0 sid) cd)
                         (get_compatible_objectives P)).
            id_key obj \<noteq> oid)
       \<and> (\<forall>dec obj. round_decisions e' cid = Some dec \<longrightarrow> saboteur dec = Some P \<longrightarrow>
             objective dec = Some obj \<longrightarrow> id_key obj \<noteq> oid)
       \<and> (dd_get (session_history e') [] sid = dd_get (session_history e) [] sid
          \<or> (\<exists>sab (obj::Objective). dd_get (session_history e') [] sid =
                 dd_get (session_history e) [] sid
                   @ [(sab, id_key obj, dd_get (session_round_counter e') 0 sid)]
               \<and> (sab = P \<longrightarrow> id_key obj \<noteq> oid)))
       \<and> (\<forall>dec sab obj. round_decisions e' cid = Some dec \<longrightarrow> saboteur dec = Some sab \<longrightarrow>
             objective dec = Some obj \<longrightarrow>
             dd_get (session_history e') [] sid =
               dd_get (session_history e) [] sid
                 @ [(sab, id_key obj, dd_get (session_round_counter e') 0 sid)])"
proof -
  have still: "(P, oid, R) \<in> set (dd_get (session_history e) [] sid)"
    using run_calls_history_mono [OF assms(2), of sid] assms(1) by blast
  note step = cooldown_step [OF still assms(3-6)]
  have rec: "dd_get (session_history e') [] sid =
               dd_get (session_history e) [] sid
                 @ [(sab, id_key obj, dd_get (session_round_counter e') 0 sid)]"
    if "round_decisions e' cid = Some dec" "saboteur dec = Some sab" "objective dec = Some obj"
    for dec sab obj
    using gofp_records [OF assms(3,5) that] .
  from step rec show ?thesis by blast
qed

theorem cooldown_enforced_witness:
  "(''gandalf'', ''the_ring'', 1) \<in> set (dd_get (session_history decided_engine) [] ''s1'')
   \<and> run_calls decided_engine [mk_call ''s2'' ''c1'' ''angry_chef'']
       = ([Inr None], decided_engine)
   \<and> round_decisions decided_engine ''c2'' = None
   \<and> cooldown_rounds (config decided_engine) = Some 4
   \<and> dd_get (session_round_counter
               (snd (get_objective_for_persona decided_engine scenario_draws ''s1'' ''c2''
                       ''gandalf'' scenario_personas))) 0 ''s1'' - 1 \<le> 4
   \<and> round_decisions
        (snd (get_objective_for_persona decided_engine scenario_draws ''s1'' ''c2''
                ''gandalf'' scenario_personas)) ''c2'' =
       Some \<lparr>saboteur = Some ''gandalf'', objective = Some pedantic_rules_lawyer,
             messages_remaining = 1\<rparr>
   \<and> id_key pedantic_rules_lawyer \<noteq> ''the_ring''
   \<and> dd_get (session_history
               (snd (get_objective_for_persona decided_engine scenario_draws ''s1'' ''c2''
                       ''gandalf'' scenario_personas))) [] ''s1'' =
       [(''gandalf'', ''the_ring'', 1), (''gandalf'', ''pedantic_rules_lawyer'', 2)]"
proof -
  let ?e' = "snd (get_objective_for_persona decided_engine scenario_draws ''s1'' ''c2''
                ''gandalf'' scenario_personas)"
  have h: "(''gandalf'', ''the_ring'', 1) \<in> set (dd_get (session_history decided_engine) [] ''s1'')"
    by (simp add: decided_engine_def dd_get_def)
  have en: "is_enabled decided_engine"
    by (simp add: is_enabled_def decided_engine_def SABOTAGE_CONFIG_def)
  have d1: "round_decisions decided_engine ''c1'' =
       Some \<lparr>saboteur = Some ''gandalf'', objective = Some the_ring, messages_remaining = 2\<rparr>"
    by (simp add: decided_engine_def)
  have run: "run_calls decided_engine [mk_call ''s2'' ''c1'' ''angry_chef'']
       = ([Inr None], decided_engine)"
    by (simp add: perform_def mk_call_def gofp_memo [OF d1 en])
  have n: "round_decisions decided_engine ''c2'' = None"
    by (simp add: decided_engine_def)
  have c: "cooldown_rounds (config decided_engine) = Some 4"
    by (simp add: decided_engine_def SABOTAGE_CONFIG_def)
  have g: "get_objective_for_persona decided_engine scenario_draws ''s1'' ''c2''
                ''gandalf'' scenario_personas =
      (fst (get_objective_for_persona decided_engine scenario_draws ''s1'' ''c2''
                ''gandalf'' scenario_personas), ?e')" by simp
  have w: "dd_get (session_round_counter ?e') 0 ''s1'' - 1 \<le> 4"
    by (simp add: second_round_gandalf round_two_engine_def dd_get_def)
  have d: "round_decisions ?e' ''c2'' =
       Some \<lparr>saboteur = Some ''gandalf'', objective = Some pedantic_rules_lawyer,
             messages_remaining = 1\<rparr>"
    by (simp add: second_round_gandalf)
  have c2: "dd_get (session_round_counter ?e') 0 ''s1'' = 2"
    by (simp add: second_round_gandalf round_two_engine_def dd_get_def)
  note t = cooldown_enforced [OF h run n c g w]
  from t d have i: "id_key pedantic_rules_lawyer \<noteq> ''the_ring''" by simp
  from t d c2 have hh: "dd_get (session_history ?e') [] ''s1'' =
       [(''gandalf'', ''the_ring'', 1), (''gandalf'', ''pedantic_rules_lawyer'', 2)]"
    by (simp add: decided_engine_def dd_get_def catalog_id_key)
  from h run n c w d i hh show ?thesis by blast
qed

section \<open>Compatibility\<close>

lemma decision_compatible_cong:
  "saboteur a = saboteur b \<Longrightarrow> objective a = objective b \<Longrightarrow>
     decision_compatible a = decision_compatible b"
  by (simp add: decision_compatible_def split: option.splits)

lemma gofp_compatible:
  assumes inv: "\<forall>c dec. round_decisions e c = Some dec \<longrightarrow> decision_compatible dec"
    and step: "get_objective_for_persona e rnd sid cid p act = (r, e')"
  shows "\<forall>c dec. round_decisions e' c = Some dec \<longrightarrow> decision_compatible dec"
proof (intro allI impI)
  fix c dec'
  assume d: "round_decisions e' c = Some dec'"
  from gofp_decisions [OF step d] show "decision_compatible dec'"
  proof
    assume "\<exists>dec. round_decisions e c = Some dec \<and> saboteur dec' = saboteur dec
            \<and> objective dec' = objective dec
            \<and> messages_remaining dec' \<le> messages_remaining dec"
    then obtain dec where "round_decisions e c = Some dec" "saboteur dec' = saboteur dec"
      "objective dec' = objective dec" by blast
    with inv show ?thesis using decision_compatible_cong [of dec' dec] by blast
  next
    assume "c = cid \<and> round_decisions e cid = None \<and> is_enabled e
            \<and> (\<exists>r1 e1 dec1. make_round_decision e rnd sid cid act = (r1, e1)
                  \<and> round_decisions e1 cid = Some dec1
                  \<and> saboteur dec' = saboteur dec1 \<and> objective dec' = objective dec1
                  \<and> messages_remaining dec' \<le> messages_remaining dec1)"
    then obtain r1 e1 dec1 where none: "round_decisions e cid = None"
      and m: "make_round_decision e rnd sid cid act = (r1, e1)"
      and d1: "round_decisions e1 cid = Some dec1"
      and same: "saboteur dec' = saboteur dec1" "objective dec' = objective dec1" by blast
    from mrd_new_decision [OF m d1 none] have "decision_compatible dec1"
      by (auto simp add: decision_compatible_def empty_decision_def)
    with same show ?thesis using decision_compatible_cong [of dec' dec1] by simp
  qed
qed

lemma reachable_compatible:
  "reachable e \<Longrightarrow> round_decisions e c = Some dec \<Longrightarrow> decision_compatible dec"
proof (induction arbitrary: c dec rule: reachable.induct)
  case (reachable_init cfg e)
  then show ?case by (auto simp add: SabotageEngine_init_def)
next
  case (reachable_call e cl r e')
  have "\<forall>c dec. round_decisions e c = Some dec \<longrightarrow> decision_compatible dec"
    using reachable_call.IH by blast
  from gofp_compatible [OF this] reachable_call.hyps(2) reachable_call.prems
  show ?case unfolding perform_def by blast
qed

text \<open>
  C3. In every reachable engine, every stored decision that has an objective has a
  saboteur, the objective is one of the catalog, and its list of compatible personas is
  empty or contains the saboteur. And an objective of the catalog whose list is empty is
  among the compatible objectives of every persona.
\<close>

theorem compatibility_enforced:
  assumes "reachable e"
  shows "(\<forall>cid dec obj. round_decisions e cid = Some dec \<longrightarrow> objective dec = Some obj \<longrightarrow>
            obj \<in> set OBJECTIVES
            \<and> (\<exists>p. saboteur dec = Some p
                  \<and> (compatible_personas obj = [] \<or> p \<in> set (compatible_personas obj))))
       \<and> (\<forall>obj p. obj \<in> set OBJECTIVES \<longrightarrow> compatible_personas obj = [] \<longrightarrow>
            obj \<in> set (get_compatible_objectives p))"
proof (intro conjI allI impI)
  fix cid dec obj
  assume d: "round_decisions e cid = Some dec" and o: "objective dec = Some obj"
  from reachable_compatible [OF assms d] o
  obtain p where p: "saboteur dec = Some p" "obj \<in> set (get_compatible_objectives p)"
    by (auto simp add: decision_compatible_def split: option.splits)
  then show "obj \<in> set OBJECTIVES"
    by (simp add: get_compatible_objectives_def compatible_in_iff)
  from p show "\<exists>p. saboteur dec = Some p
      \<and> (compatible_personas obj = [] \<or> p \<in> set (compatible_personas obj))"
    by (auto simp add: get_compatible_objectives_def compatible_in_iff)
next
  fix obj p
  assume "obj \<in> set OBJECTIVES" "compatible_personas obj = []"
  then show "obj \<in> set (get_compatible_objectives p)"
    by (simp add: get_compatible_objectives_def compatible_in_iff)
qed

theorem compatibility_enforced_witness:
  "reachable decided_engine
   \<and> round_decisions decided_engine ''c1'' =
       Some \<lparr>saboteur = Some ''gandalf'', objective = Some the_ring, messages_remaining = 2\<rparr>
   \<and> the_ring \<in> set OBJECTIVES
   \<and> ''gandalf'' \<in> set (compatible_personas the_ring)
   \<and> compatible_personas identity_crisis = []
   \<and> identity_crisis \<in> set (get_compatible_objectives ''terminator'')"
proof -
  have d: "round_decisions decided_engine ''c1'' =
       Some \<lparr>saboteur = Some ''gandalf'', objective = Some the_ring, messages_remaining = 2\<rparr>"
    by (simp add: decided_engine_def)
  have i: "identity_crisis \<in> set OBJECTIVES" by (simp add: OBJECTIVES_def)
  note t = compatibility_enforced [OF reachable_decided]
  from t d have "the_ring \<in> set OBJECTIVES \<and> ''gandalf'' \<in> set (compatible_personas the_ring)"
    by (auto simp add: catalog_compatible_personas)
  moreover from t i have "identity_crisis \<in> set (get_compatible_objectives ''terminator'')"
    by (simp add: catalog_compatible_personas)
  ultimately show ?thesis using reachable_decided d
    by (simp add: catalog_compatible_personas)
qed

section \<open>A failed activation roll\<close>

lemma unseen_dd: "unseen e cid \<Longrightarrow> cid \<notin> dd_get (session_correlation_ids e) {} s"
  by (auto simp add: unseen_def dd_get_def split: option.splits)

lemma perform_unseen:
  assumes "unseen e cid" and "call_correlation_id c \<noteq> cid" and "perform e c = (r, e')"
  shows "unseen e' cid"
proof -
  have rd: "round_decisions e' cid = None"
    using gofp_other [of cid "call_correlation_id c" e "call_draws c" "call_session_id c"
        "call_persona c" "call_active_personas c"] assms
    by (simp add: perform_def unseen_def)
  have "cid \<notin> seen" if "session_correlation_ids e' s = Some seen" for s seen
    using gofp_seen [of e "call_draws c" "call_session_id c" "call_correlation_id c"
        "call_persona c" "call_active_personas c"] assms that unseen_dd [OF assms(1)]
    by (auto simp add: perform_def unseen_def split: if_splits)
  with rd show ?thesis by (simp add: unseen_def)
qed

lemma run_calls_unseen:
  assumes "unseen e cid" and "\<forall>c\<in>set cs. call_correlation_id c \<noteq> cid"
    and "run_calls e cs = (rs, e')"
  shows "unseen e' cid"
  using assms
proof (induction cs arbitrary: e rs)
  case Nil
  then show ?case by simp
next
  case (Cons c cs)
  obtain r e1 where p: "perform e c = (r, e1)" by (cases "perform e c")
  obtain rs1 where rc: "run_calls e1 cs = (rs1, e')"
    using Cons.prems(3) p by (auto split: prod.splits)
  have "unseen e1 cid" using perform_unseen [OF Cons.prems(1) _ p] Cons.prems(2) by simp
  from Cons.IH [OF this _ rc] Cons.prems(2) show ?case by simp
qed

lemma init_unseen: "SabotageEngine_init cfg = Inr e \<Longrightarrow> unseen e cid"
  by (auto simp add: SabotageEngine_init_def unseen_def)

lemma run_calls_memo:
  assumes "is_enabled e" and "round_decisions e cid = Some empty_decision"
    and "run_calls e cs = (rs, e')"
  shows "length rs = length cs
     \<and> (\<forall>i<length cs. call_correlation_id (cs ! i) = cid \<longrightarrow> rs ! i = Inr None)
     \<and> round_decisions e' cid = Some empty_decision
     \<and> ((\<forall>c\<in>set cs. call_correlation_id c = cid) \<longrightarrow>
          session_round_counter e' = session_round_counter e
          \<and> session_correlation_ids e' = session_correlation_ids e
          \<and> session_history e' = session_history e)"
  using assms
proof (induction cs arbitrary: e rs)
  case Nil
  then show ?case by simp
next
  case (Cons c cs)
  obtain r e1 where p: "perform e c = (r, e1)" by (cases "perform e c")
  obtain rs1 where rc: "run_calls e1 cs = (rs1, e')" and rs: "rs = r # rs1"
    using Cons.prems(3) p by (auto split: prod.splits)
  have en1: "is_enabled e1" using perform_enabled [OF p] Cons.prems(1) by simp
  have step: "call_correlation_id c = cid \<Longrightarrow> r = Inr None \<and> e1 = e"
    using p Cons.prems(1,2) by (auto simp add: perform_def gofp_memo empty_decision_def)
  have d1: "round_decisions e1 cid = Some empty_decision"
  proof (cases "call_correlation_id c = cid")
    case True
    with step Cons.prems(2) show ?thesis by simp
  next
    case False
    then have "round_decisions (snd (perform e c)) cid = round_decisions e cid"
      unfolding perform_def by (intro gofp_other) simp
    with p Cons.prems(2) show ?thesis by simp
  qed
  note IH = Cons.IH [OF en1 d1 rc]
  have res: "rs ! i = Inr None"
    if "i < length (c # cs)" and "call_correlation_id ((c # cs) ! i) = cid" for i
    using that IH rs step by (cases i) auto
  have frame: "session_round_counter e' = session_round_counter e
          \<and> session_correlation_ids e' = session_correlation_ids e
          \<and> session_history e' = session_history e"
    if "\<forall>c\<in>set (c # cs). call_correlation_id c = cid"
    using that IH step by simp
  from IH rs res frame show ?case by simp
qed

text \<open>
  C6. Start from a constructed engine and run any requests that do not carry the
  correlation id \<open>cid\<close>; the engine is enabled and has a \<open>chance_per_round\<close>. If the
  first request for \<open>cid\<close> draws an activation roll greater than the chance, it returns
  none, the empty decision is stored for \<open>cid\<close>, and the round counter of its session
  is one higher than before. Every later request for \<open>cid\<close> (any persona, any session)
  returns none, the decision stays empty, and requests for \<open>cid\<close> alone do not move
  any round counter again.
\<close>

theorem failed_activation_roll:
  assumes "SabotageEngine_init cfg = Inr e0"
    and "run_calls e0 earlier = (rs0, e)"
    and "\<forall>c\<in>set earlier. call_correlation_id c \<noteq> cid"
    and "is_enabled e"
    and "chance_per_round (config e) = Some chance"
    and "chance < random_roll rnd"
    and "get_objective_for_persona e rnd sid cid p act = (r, e1)"
    and "run_calls e1 later = (rs, e2)"
  shows "r = Inr None
     \<and> round_decisions e1 cid = Some empty_decision
     \<and> dd_get (session_round_counter e1) 0 sid = dd_get (session_round_counter e) 0 sid + 1
     \<and> (\<forall>i<length later. call_correlation_id (later ! i) = cid \<longrightarrow> rs ! i = Inr None)
     \<and> round_decisions e2 cid = Some empty_decision
     \<and> ((\<forall>c\<in>set later. call_correlation_id c = cid) \<longrightarrow>
          session_round_counter e2 = session_round_counter e1)"
proof -
  have un: "unseen e cid"
    using run_calls_unseen [OF init_unseen [OF assms(1)] assms(3,2)] .
  then have none: "round_decisions e cid = None" by (simp add: unseen_def)
  have rn: "round_number_of e sid cid = dd_get (session_round_counter e) 0 sid + 1"
    using unseen_dd [OF un, of sid] by (simp add: round_number_of_def)
  have e1: "r = Inr None \<and>
      e1 = (bump_round_counter e sid cid)
             \<lparr>round_decisions := (round_decisions e)(cid \<mapsto> empty_decision)\<rparr>"
    using assms(4,7) none mrd_roll_fails [OF assms(5,6)]
    by (auto simp add: get_objective_for_persona_def domIff empty_decision_def)
  then have d1: "round_decisions e1 cid = Some empty_decision" by simp
  have c1: "dd_get (session_round_counter e1) 0 sid = dd_get (session_round_counter e) 0 sid + 1"
    using e1 rn by simp
  have en1: "is_enabled e1" using e1 assms(4) by (simp add: is_enabled_def)
  from run_calls_memo [OF en1 d1 assms(8)] e1 d1 c1 show ?thesis by simp
qed

theorem failed_activation_roll_witness:
  "SabotageEngine_init None = Inr fresh_engine
   \<and> run_calls fresh_engine [mk_call ''s1'' ''c1'' ''angry_chef''] = ([Inr None], decided_engine)
   \<and> is_enabled decided_engine
   \<and> chance_per_round (config decided_engine) = Some (33 / 100)
   \<and> 33 / 100 < random_roll failed_roll_draws
   \<and> fst (get_objective_for_persona decided_engine failed_roll_draws ''s1'' ''c2'' ''gandalf''
            scenario_personas) = Inr None
   \<and> dd_get (session_round_counter decided_engine) 0 ''s1'' = 1
   \<and> dd_get (session_round_counter
               (snd (get_objective_for_persona decided_engine failed_roll_draws ''s1'' ''c2''
                       ''gandalf'' scenario_personas))) 0 ''s1'' = 2
   \<and> fst (run_calls
            (snd (get_objective_for_persona decided_engine failed_roll_draws ''s1'' ''c2''
                    ''gandalf'' scenario_personas))
            [mk_call ''s1'' ''c2'' ''angry_chef'', mk_call ''s1'' ''c2'' ''your_nan''])
       = [Inr None, Inr None]"
proof -
  let ?g = "get_objective_for_persona decided_engine failed_roll_draws ''s1'' ''c2'' ''gandalf''
            scenario_personas"
  let ?later = "[mk_call ''s1'' ''c2'' ''angry_chef'', mk_call ''s1'' ''c2'' ''your_nan'']"
  have en: "is_enabled decided_engine"
    by (simp add: is_enabled_def decided_engine_def SABOTAGE_CONFIG_def)
  have ch: "chance_per_round (config decided_engine) = Some (33 / 100)"
    by (simp add: decided_engine_def SABOTAGE_CONFIG_def)
  have ro: "33 / 100 < random_roll failed_roll_draws" by (simp add: failed_roll_draws_def)
  have ea: "\<forall>c\<in>set [mk_call ''s1'' ''c1'' ''angry_chef'']. call_correlation_id c \<noteq> ''c2''"
    by (simp add: mk_call_def)
  have g: "?g = (fst ?g, snd ?g)" by simp
  have l: "run_calls (snd ?g) ?later = (fst (run_calls (snd ?g) ?later), snd (run_calls (snd ?g) ?later))"
    by simp
  have c0: "dd_get (session_round_counter decided_engine) 0 ''s1'' = 1"
    by (simp add: decided_engine_def dd_get_def)
  note t = failed_activation_roll [OF init_default run_first_call ea en ch ro g l]
  have len: "length (fst (run_calls (snd ?g) ?later)) = 2"
    by (simp split: prod.splits)
  from t have r0: "fst (run_calls (snd ?g) ?later) ! 0 = Inr None"
    and r1: "fst (run_calls (snd ?g) ?later) ! 1 = Inr None"
    by (simp_all add: mk_call_def)
  have rs: "fst (run_calls (snd ?g) ?later) = [Inr None, Inr None]"
    using len r0 r1 by (auto simp add: length_Suc_conv numeral_2_eq_2)
  from t c0 rs init_default run_first_call en ch ro show ?thesis by simp
qed

section \<open>The disabled switch\<close>

text \<open>
  C7. With \<open>enabled\<close> false in the configuration, every request (any session, correlation
  id, persona, active personas and draws) returns none and returns the engine it was
  given: the round decisions, the cooldown histories, the round counters and the sets of
  seen correlation ids are the same as before.
\<close>

theorem disabled_switch:
  "enabled (config e) = Some False \<Longrightarrow>
     get_objective_for_persona e rnd sid cid p act = (Inr None, e)"
  by (simp add: get_objective_for_persona_def is_enabled_def)

theorem disabled_switch_witness:
  "enabled (config disabled_engine) = Some False
   \<and> get_objective_for_persona disabled_engine scenario_draws
        ''s1'' ''c1'' ''gandalf'' scenario_personas = (Inr None, disabled_engine)
   \<and> get_objective_for_persona disabled_engine scenario_draws
        ''s2'' ''c9'' ''gandalf'' scenario_personas = (Inr None, disabled_engine)"
proof -
  have d: "enabled (config disabled_engine) = Some False"
    by (simp add: disabled_engine_def)
  show ?thesis using d disabled_switch [OF d] by simp
qed

section \<open>Memoization by correlation id\<close>







section \<open>The scenario of round one\<close>

text \<open>
  C8 as the code has it. On a fresh engine with the default configuration, the three
  active personas, an activation roll that passes and a saboteur draw that selects
  \<open>gandalf\<close>, the candidates are three: \<open>the_ring\<close>, \<open>pedantic_rules_lawyer\<close>
  and the universal \<open>identity_crisis\<close>, with weights 3, 4 and 1. The request of
  \<open>gandalf\<close> returns the prompt of the objective that the weighted draw \<open>u\<close> selects:
  \<open>the_ring\<close> when \<open>8u < 3\<close>, \<open>pedantic_rules_lawyer\<close> when \<open>3 \<le> 8u < 7\<close>,
  \<open>identity_crisis\<close> otherwise. The requests of \<open>angry_chef\<close> and \<open>your_nan\<close>
  under the same correlation id return none and leave the engine as it is.
\<close>

theorem scenario_round_one:
  assumes "random_roll rnd \<le> 33 / 100"
    and "random_choice (choice_index rnd) scenario_personas = Inr ''gandalf''"
    and "get_objective_for_persona fresh_engine rnd ''s1'' ''c1'' ''gandalf'' scenario_personas
           = (r, e1)"
  shows "SabotageEngine_init None = Inr fresh_engine
    \<and> get_compatible_objectives ''gandalf'' = [the_ring, pedantic_rules_lawyer, identity_crisis]
    \<and> r = Inr (Some (prompt (if choices_roll rnd * 8 < 3 then the_ring
                              else if choices_roll rnd * 8 < 7 then pedantic_rules_lawyer
                              else identity_crisis)))
    \<and> get_objective_for_persona e1 rnd' ''s1'' ''c1'' ''angry_chef'' scenario_personas
        = (Inr None, e1)
    \<and> get_objective_for_persona e1 rnd' ''s1'' ''c1'' ''your_nan'' scenario_personas
        = (Inr None, e1)"
proof -
  have pick: "choice_index rnd mod 3 = 1" using assms(2) by (simp add: forced_gandalf)
  from gofp_fresh_gandalf [OF assms(1) pick] assms(3)
  have r: "r = Inr (Some (prompt (gandalf_pick (choices_roll rnd))))"
    and e1: "e1 = (round_one_engine (choices_roll rnd))
        \<lparr>round_decisions :=
           [''c1'' \<mapsto> \<lparr>saboteur = Some ''gandalf'',
                        objective = Some (gandalf_pick (choices_roll rnd)),
                        messages_remaining = 1\<rparr>]\<rparr>"
    by simp_all
  have en: "is_enabled e1"
    by (simp add: e1 is_enabled_def round_one_engine_def SABOTAGE_CONFIG_def)
  have d: "round_decisions e1 ''c1'' =
      Some \<lparr>saboteur = Some ''gandalf'', objective = Some (gandalf_pick (choices_roll rnd)),
            messages_remaining = 1\<rparr>"
    by (simp add: e1)
  have o1: "get_objective_for_persona e1 rnd' ''s1'' ''c1'' ''angry_chef'' scenario_personas
        = (Inr None, e1)"
    by (simp add: gofp_memo [OF d en])
  have o2: "get_objective_for_persona e1 rnd' ''s1'' ''c1'' ''your_nan'' scenario_personas
        = (Inr None, e1)"
    by (simp add: gofp_memo [OF d en])
  from r o1 o2 init_default compatible_gandalf show ?thesis
    by (simp add: gandalf_pick_def)
qed

theorem scenario_round_one_witness:
  "random_roll scenario_draws \<le> 33 / 100
   \<and> random_choice (choice_index scenario_draws) scenario_personas = Inr ''gandalf''
   \<and> fst (get_objective_for_persona fresh_engine scenario_draws ''s1'' ''c1'' ''gandalf''
             scenario_personas) = Inr (Some (prompt the_ring))
   \<and> fst (get_objective_for_persona
             (snd (get_objective_for_persona fresh_engine scenario_draws ''s1'' ''c1''
                     ''gandalf'' scenario_personas))
             scenario_draws ''s1'' ''c1'' ''angry_chef'' scenario_personas) = Inr None
   \<and> fst (get_objective_for_persona
             (snd (get_objective_for_persona fresh_engine scenario_draws ''s1'' ''c1''
                     ''gandalf'' scenario_personas))
             scenario_draws ''s1'' ''c1'' ''your_nan'' scenario_personas) = Inr None"
proof -
  have a: "random_roll scenario_draws \<le> 33 / 100" by (simp add: scenario_draws_def)
  have b: "random_choice (choice_index scenario_draws) scenario_personas = Inr ''gandalf''"
    by (simp add: forced_gandalf scenario_draws_def)
  have c: "get_objective_for_persona fresh_engine scenario_draws ''s1'' ''c1'' ''gandalf''
             scenario_personas =
     (fst (get_objective_for_persona fresh_engine scenario_draws ''s1'' ''c1'' ''gandalf''
             scenario_personas),
      snd (get_objective_for_persona fresh_engine scenario_draws ''s1'' ''c1'' ''gandalf''
             scenario_personas))" by simp
  from scenario_round_one [OF a b c, of scenario_draws] a b show ?thesis
    by (simp add: scenario_draws_def)
qed

text \<open>
  C8 as stated fails: \<open>the_ring\<close> is not the only candidate of \<open>gandalf\<close>, and
  with the activation and the saboteur forced as the claim says, a weighted draw of one
  half makes the first request return the prompt of \<open>pedantic_rules_lawyer\<close>.
\<close>

theorem scenario_round_one_other_pick:
  "SabotageEngine_init None = Inr fresh_engine
   \<and> random_roll other_pick_draws \<le> 33 / 100
   \<and> random_choice (choice_index other_pick_draws) scenario_personas = Inr ''gandalf''
   \<and> fst (get_objective_for_persona fresh_engine other_pick_draws ''s1'' ''c1'' ''gandalf''
             scenario_personas) = Inr (Some (prompt pedantic_rules_lawyer))
   \<and> prompt pedantic_rules_lawyer \<noteq> prompt the_ring
   \<and> get_compatible_objectives ''gandalf'' \<noteq> [the_ring]"
proof -
  have a: "random_roll other_pick_draws \<le> 33 / 100" by (simp add: other_pick_draws_def)
  have b: "choice_index other_pick_draws mod 3 = 1" by (simp add: other_pick_draws_def)
  have "fst (get_objective_for_persona fresh_engine other_pick_draws ''s1'' ''c1'' ''gandalf''
             scenario_personas) = Inr (Some (prompt pedantic_rules_lawyer))"
    by (simp add: gofp_fresh_gandalf [OF a b]) (simp add: gandalf_pick_def other_pick_draws_def)
  moreover have "prompt pedantic_rules_lawyer \<noteq> prompt the_ring"
    by (simp add: pedantic_rules_lawyer_def the_ring_def)
  moreover have "random_choice (choice_index other_pick_draws) scenario_personas = Inr ''gandalf''"
    by (simp add: forced_gandalf other_pick_draws_def)
  ultimately show ?thesis using a init_default by (simp add: compatible_gandalf)
qed

section \<open>No validation at start\<close>

lemma catalog_ok: "catalog_well_formed OBJECTIVES"
  by (simp add: catalog_well_formed_def OBJECTIVES_def catalog_weight catalog_signature_for
        catalog_compatible_personas)

lemma missing_chance:
  assumes "is_enabled e" and "chance_per_round (config e) = None"
    and "round_decisions e cid = None"
  shows "fst (get_objective_for_persona e rnd sid cid p act) = Inl KeyError"
  using assms by (simp add: get_objective_for_persona_def make_round_decision_def domIff Let_def)

text \<open>
  C9 as the code has it. The constructor validates nothing and cannot fail: for every
  argument it returns an engine with empty state that holds the given configuration (the
  default one for \<open>None\<close> or an empty dictionary). The catalog of the module and the
  default configuration are well formed by what they contain. A missing
  \<open>chance_per_round\<close> shows only when a round decision reads it: the first request of a
  new round raises \<open>KeyError\<close>.
\<close>

theorem no_startup_validation:
  "(\<exists>e. SabotageEngine_init cfg = Inr e
        \<and> config e = (case cfg of
                        None \<Rightarrow> SABOTAGE_CONFIG
                      | Some c \<Rightarrow> if c = empty_config then SABOTAGE_CONFIG else c)
        \<and> round_decisions e = Map.empty \<and> session_history e = Map.empty
        \<and> session_round_counter e = Map.empty \<and> session_correlation_ids e = Map.empty)
   \<and> catalog_well_formed OBJECTIVES
   \<and> config_well_formed SABOTAGE_CONFIG
   \<and> (is_enabled e' \<longrightarrow> chance_per_round (config e') = None \<longrightarrow> round_decisions e' cid = None
        \<longrightarrow> fst (get_objective_for_persona e' rnd sid cid p act) = Inl KeyError)"
  using catalog_ok missing_chance [of e' cid rnd sid p act]
  by (simp add: SabotageEngine_init_def config_well_formed_def SABOTAGE_CONFIG_def)

theorem no_startup_validation_witness:
  "SabotageEngine_init (Some incomplete_config) = Inr (fresh_engine\<lparr>config := incomplete_config\<rparr>)
   \<and> is_enabled (fresh_engine\<lparr>config := incomplete_config\<rparr>)
   \<and> chance_per_round (config (fresh_engine\<lparr>config := incomplete_config\<rparr>)) = None
   \<and> round_decisions (fresh_engine\<lparr>config := incomplete_config\<rparr>) ''c1'' = None
   \<and> fst (get_objective_for_persona (fresh_engine\<lparr>config := incomplete_config\<rparr>) scenario_draws
            ''s1'' ''c1'' ''gandalf'' scenario_personas) = Inl KeyError
   \<and> catalog_well_formed OBJECTIVES"
proof -
  let ?e = "fresh_engine\<lparr>config := incomplete_config\<rparr>"
  have ne: "incomplete_config \<noteq> empty_config"
    by (simp add: incomplete_config_def empty_config_def)
  have a: "is_enabled ?e"
    by (simp add: is_enabled_def incomplete_config_def)
  have b: "chance_per_round (config ?e) = None"
    by (simp add: incomplete_config_def empty_config_def)
  have c: "round_decisions ?e ''c1'' = None"
    by (simp add: fresh_engine_def)
  note t = no_startup_validation [of "Some incomplete_config" ?e "''c1''"
      scenario_draws "''s1''" "''gandalf''" scenario_personas]
  from t ne have i: "SabotageEngine_init (Some incomplete_config) = Inr ?e"
    by (auto simp add: fresh_engine_def)
  from t a b c i show ?thesis by simp
qed

text \<open>
  C9 as stated fails: a configuration with a probability of 3.5 and a negative
  cooldown is accepted by the constructor, and the engine runs with it; a roll of 0.99
  activates the round.
\<close>

theorem malformed_config_accepted:
  "\<not> config_well_formed bad_config
   \<and> SabotageEngine_init (Some bad_config) = Inr bad_engine
   \<and> config bad_engine = bad_config
   \<and> fst (get_objective_for_persona bad_engine late_draws ''s1'' ''c1'' ''gandalf''
            scenario_personas) = Inr (Some (prompt the_ring))"
proof -
  have w: "\<not> config_well_formed bad_config"
    by (simp add: config_well_formed_def bad_config_def)
  have i: "SabotageEngine_init (Some bad_config) = Inr bad_engine"
    by (simp add: SabotageEngine_init_def bad_engine_def fresh_engine_def bad_config_def
          empty_config_def)
  have b: "bump_round_counter bad_engine ''s1'' ''c1'' =
     bad_engine\<lparr>session_round_counter := [''s1'' \<mapsto> 1],
                session_correlation_ids := [''s1'' \<mapsto> {''c1''}]\<rparr>"
    by (simp add: bump_round_counter_def bad_engine_def fresh_engine_def dd_get_def dd_touch_def
          Let_def)
  have m: "make_round_decision bad_engine late_draws ''s1'' ''c1'' scenario_personas =
     (Inr (), (round_one_engine 0)\<lparr>config := bad_config\<rparr>)"
    by (simp add: make_round_decision_def b Let_def)
       (simp add: bad_engine_def fresh_engine_def bad_config_def late_draws_def dd_get_def
          dd_touch_def random_choice_def scenario_personas_def compatible_gandalf
          recent_objectives_def pick_gandalf round_one_engine_def gandalf_pick_def)
  have r: "fst (get_objective_for_persona bad_engine late_draws ''s1'' ''c1'' ''gandalf''
            scenario_personas) = Inr (Some (prompt the_ring))"
    by (simp add: get_objective_for_persona_def m)
       (simp add: bad_engine_def fresh_engine_def is_enabled_def bad_config_def
          round_one_engine_def gandalf_pick_def)
  from w i r show ?thesis by (simp add: bad_engine_def)
qed

section \<open>The conversation store\<close>

lemma dd_touch_present: "m k = Some v \<Longrightarrow> dd_touch m d k = m"
  by (auto simp add: dd_touch_def dd_get_def)

lemma dd_get_nonempty: "dd_get m [] k \<noteq> [] \<Longrightarrow> m k = Some (dd_get m [] k)"
  by (auto simp add: dd_get_def split: option.splits)

lemma append_user_sessions:
  "sessions (append_user st s t) =
     (sessions st)(s \<mapsto> (if is_duplicate (dd_get (sessions st) [] s) t
                         then dd_get (sessions st) [] s
                         else dd_get (sessions st) [] s @ [user_turn t]))"
  by (simp add: append_user_def Let_def dd_touch_def is_duplicate_def user_turn_def)

lemma append_user_history:
  "dd_get (sessions (append_user st s t)) [] s =
     (if is_duplicate (dd_get (sessions st) [] s) t
      then dd_get (sessions st) [] s
      else dd_get (sessions st) [] s @ [user_turn t])"
  by (simp add: append_user_sessions) (simp add: dd_get_def)

lemma append_user_more: "SessionStore.more (append_user st s t) = SessionStore.more st"
  by (simp add: append_user_def Let_def)

lemma is_duplicate_after: "is_duplicate (h @ [user_turn t]) t' = (t' = t)"
  by (auto simp add: is_duplicate_def user_turn_def)

lemma append_user_noop_iff:
  "(append_user st s t = st) = is_duplicate (dd_get (sessions st) [] s) t"
proof
  assume eq: "append_user st s t = st"
  show "is_duplicate (dd_get (sessions st) [] s) t"
  proof (rule ccontr)
    assume nd: "\<not> is_duplicate (dd_get (sessions st) [] s) t"
    have "dd_get (sessions (append_user st s t)) [] s = dd_get (sessions st) [] s @ [user_turn t]"
      using nd by (simp add: append_user_history)
    with eq show False by simp
  qed
next
  assume d: "is_duplicate (dd_get (sessions st) [] s) t"
  then have "dd_get (sessions st) [] s \<noteq> []" by (simp add: is_duplicate_def)
  then have "sessions st s = Some (dd_get (sessions st) [] s)" by (rule dd_get_nonempty)
  then have "sessions (append_user st s t) = sessions st"
    using d by (simp add: append_user_sessions fun_upd_idem)
  then show "append_user st s t = st"
    using append_user_more [of st s t] by (intro SessionStore.equality) simp_all
qed

lemma append_user_last:
  "is_duplicate (dd_get (sessions (append_user st s t)) [] s) t' = (t' = t)"
  by (auto simp add: append_user_history is_duplicate_after)
     (auto simp add: is_duplicate_def)

lemma init_history: "dd_get (sessions SessionStore_init) [] s = []"
  by (simp add: SessionStore_init_def dd_get_def)

text \<open>
  C4. \<open>append_user\<close> returns the store unchanged exactly when the history of the
  session is not empty and its last entry is a user entry with the same content; the
  history after the call is the old one in that case and the old one with one user entry
  appended otherwise, and the other sessions are untouched. So a second call with the
  same text changes nothing after the first (on a new session exactly one entry is
  stored), and a call with a different text always appends (on a new session two entries
  are stored).
\<close>

theorem append_user_dedup:
  "(append_user st s t = st) =
     (dd_get (sessions st) [] s \<noteq> [] \<and> role (last (dd_get (sessions st) [] s)) = ''user''
      \<and> content (last (dd_get (sessions st) [] s)) = t)
   \<and> dd_get (sessions (append_user st s t)) [] s =
       (if dd_get (sessions st) [] s \<noteq> [] \<and> role (last (dd_get (sessions st) [] s)) = ''user''
           \<and> content (last (dd_get (sessions st) [] s)) = t
        then dd_get (sessions st) [] s
        else dd_get (sessions st) [] s @ [\<lparr>role = ''user'', content = t, metadata = None\<rparr>])
   \<and> (\<forall>s'. s' \<noteq> s \<longrightarrow> sessions (append_user st s t) s' = sessions st s')
   \<and> append_user (append_user st s t) s t = append_user st s t
   \<and> (t' \<noteq> t \<longrightarrow>
        dd_get (sessions (append_user (append_user st s t) s t')) [] s =
          dd_get (sessions (append_user st s t)) [] s
            @ [\<lparr>role = ''user'', content = t', metadata = None\<rparr>])
   \<and> sessions (append_user (append_user SessionStore_init s t) s t) s =
        Some [\<lparr>role = ''user'', content = t, metadata = None\<rparr>]
   \<and> (t' \<noteq> t \<longrightarrow>
        sessions (append_user (append_user SessionStore_init s t) s t') s =
          Some [\<lparr>role = ''user'', content = t, metadata = None\<rparr>,
                \<lparr>role = ''user'', content = t', metadata = None\<rparr>])"
proof -
  let ?h = "dd_get (sessions st) [] s"
  have noop: "(append_user st s t = st) = is_duplicate ?h t"
    by (rule append_user_noop_iff)
  have hist: "dd_get (sessions (append_user st s t)) [] s =
       (if is_duplicate ?h t then ?h
        else ?h @ [\<lparr>role = ''user'', content = t, metadata = None\<rparr>])"
    by (simp add: append_user_history user_turn_def)
  have others: "\<forall>s'. s' \<noteq> s \<longrightarrow> sessions (append_user st s t) s' = sessions st s'"
    by (simp add: append_user_sessions)
  have idem: "append_user (append_user st s t) s t = append_user st s t"
    by (simp add: append_user_noop_iff append_user_last)
  have distinct: "dd_get (sessions (append_user (append_user st s t) s t')) [] s =
          dd_get (sessions (append_user st s t)) [] s
            @ [\<lparr>role = ''user'', content = t', metadata = None\<rparr>]" if "t' \<noteq> t"
    using that append_user_history [of "append_user st s t" s t']
    by (simp add: append_user_last user_turn_def)
  have fresh1: "sessions (append_user (append_user SessionStore_init s t) s t) s =
        Some [\<lparr>role = ''user'', content = t, metadata = None\<rparr>]"
  proof -
    have "append_user (append_user SessionStore_init s t) s t = append_user SessionStore_init s t"
      by (simp add: append_user_noop_iff append_user_last)
    then show ?thesis
      by (simp add: append_user_sessions init_history is_duplicate_def user_turn_def)
  qed
  have fresh2: "sessions (append_user (append_user SessionStore_init s t) s t') s =
          Some [\<lparr>role = ''user'', content = t, metadata = None\<rparr>,
                \<lparr>role = ''user'', content = t', metadata = None\<rparr>]" if "t' \<noteq> t"
    using that
    by (simp add: append_user_sessions [of "append_user SessionStore_init s t"]
          append_user_last append_user_history init_history)
       (simp add: is_duplicate_def user_turn_def)
  from noop hist others idem distinct fresh1 fresh2 show ?thesis
    unfolding is_duplicate_def by blast
qed

theorem append_user_dedup_witness:
  "''Y'' \<noteq> ''X''
   \<and> append_user (append_user SessionStore_init ''s'' ''X'') ''s'' ''X''
       = append_user SessionStore_init ''s'' ''X''
   \<and> sessions (append_user (append_user SessionStore_init ''s'' ''X'') ''s'' ''X'') ''s'' =
        Some [\<lparr>role = ''user'', content = ''X'', metadata = None\<rparr>]
   \<and> sessions (append_user (append_user SessionStore_init ''s'' ''X'') ''s'' ''Y'') ''s'' =
        Some [\<lparr>role = ''user'', content = ''X'', metadata = None\<rparr>,
              \<lparr>role = ''user'', content = ''Y'', metadata = None\<rparr>]
   \<and> sessions (append_user SessionStore_init ''s'' ''X'') ''other'' = sessions SessionStore_init ''other''"
  using append_user_dedup [of SessionStore_init "''s''" "''X''" "''Y''"]
  by (simp add: append_user_sessions init_history is_duplicate_def user_turn_def)

lemma get_messages_loop_map: "get_messages_loop acc ts = acc @ map render_turn ts"
  by (induction ts arbitrary: acc) simp_all

lemma get_messages_map:
  "get_messages st s = map render_turn (case sessions st s of None \<Rightarrow> [] | Some h \<Rightarrow> h)"
  by (simp add: get_messages_def get_messages_loop_map)

lemma get_messages_dd: "get_messages st s = map render_turn (dd_get (sessions st) [] s)"
  by (simp add: get_messages_map dd_get_def)

lemma render_user: "render_turn \<lparr>role = ''user'', content = c, metadata = None\<rparr> = \<lparr>role = ''user'', content = c\<rparr>"
  by (simp add: render_turn_def metadata_persona_def)

lemma render_assistant:
  "render_turn \<lparr>role = ''assistant'', content = c, metadata = Some [(''persona'', p)]\<rparr> =
     \<lparr>role = ''assistant'',
      content = (if p = [] then c else ''('' @ display_name p @ '' said) '' @ c)\<rparr>"
  by (simp add: render_turn_def metadata_persona_def)

lemma film_noir: "display_name ''film_noir_detective'' = ''Film Noir Detective''"
  by code_simp

lemma split_on_nonempty: "split_on sep xs \<noteq> []"
  by (induction xs) (auto split: list.splits)

lemma join_with_Cons: "ws \<noteq> [] \<Longrightarrow> join_with sep ([] # ws) = sep # join_with sep ws"
  by (cases ws) simp_all

lemma join_with_push: "join_with sep ((x # w) # ws) = x # join_with sep (w # ws)"
  by (cases ws) simp_all

lemma space_facts:
  "\<not> is_lower (CHR '' '')" "\<not> is_upper (CHR '' '')"
  "to_upper (CHR '' '') = CHR '' ''" "to_lower (CHR '' '') = CHR '' ''"
  "\<not> is_lower (CHR ''_'')"
  by (simp_all add: is_lower_def is_upper_def to_upper_def to_lower_def)

lemma lower_facts: "is_lower c \<Longrightarrow> \<not> is_upper c" "is_lower c \<Longrightarrow> to_lower c = c"
  by (auto simp add: is_lower_def is_upper_def to_lower_def Let_def)

lemma title_words:
  assumes "\<forall>c\<in>set p. is_lower c \<or> c = CHR ''_''"
  shows "title_from False (str_replace (CHR ''_'') (CHR '' '') p) =
           join_with (CHR '' '') (map capitalize_word (split_on (CHR ''_'') p))
       \<and> title_from True (str_replace (CHR ''_'') (CHR '' '') p) =
           join_with (CHR '' '')
             (hd (split_on (CHR ''_'') p) # map capitalize_word (tl (split_on (CHR ''_'') p)))"
  using assms
proof (induction p)
  case Nil
  then show ?case by (simp add: str_replace_def)
next
  case (Cons c cs)
  then have IH: "title_from False (str_replace (CHR ''_'') (CHR '' '') cs) =
           join_with (CHR '' '') (map capitalize_word (split_on (CHR ''_'') cs))"
      "title_from True (str_replace (CHR ''_'') (CHR '' '') cs) =
           join_with (CHR '' '')
             (hd (split_on (CHR ''_'') cs) # map capitalize_word (tl (split_on (CHR ''_'') cs)))"
    by simp_all
  obtain w ws where sp: "split_on (CHR ''_'') cs = w # ws"
    using split_on_nonempty [of "CHR ''_''" cs] by (cases "split_on (CHR ''_'') cs") auto
  show ?case
  proof (cases "c = CHR ''_''")
    case True
    then show ?thesis
      using IH(1) sp
      by (simp add: str_replace_def space_facts)
  next
    case False
    with Cons.prems have lc: "is_lower c" by simp
    from False lc IH(2) sp show ?thesis
      by (simp add: str_replace_def lower_facts join_with_push)
  qed
qed

lemma display_name_words:
  "\<forall>c\<in>set p. is_lower c \<or> c = CHR ''_'' \<Longrightarrow> display_name p = spec_display_name p"
  by (simp add: display_name_def spec_display_name_def str_title_def title_words)

text \<open>
  The persona keys of the roster are not empty and consist of lowercase letters and
  underscores, so the name that \<open>get_messages\<close> computes for them is the one the
  specification describes. Every turn of a store of the server is a user turn or an
  assistant turn of a roster persona.
\<close>

lemma roster_keys:
  "list_all (\<lambda>p. p \<noteq> [] \<and> list_all (\<lambda>ch. is_lower ch \<or> ch = CHR ''_'') p) get_personas"
  by code_simp

lemma roster_key:
  assumes "p \<in> set get_personas"
  shows "p \<noteq> []" and "display_name p = spec_display_name p"
proof -
  from roster_keys assms have k: "p \<noteq> [] \<and> list_all (\<lambda>ch. is_lower ch \<or> ch = CHR ''_'') p"
    by (simp only: list_all_iff) blast
  then show "p \<noteq> []" by simp
  from k have "\<forall>ch\<in>set p. is_lower ch \<or> ch = CHR ''_''" by (simp add: list_all_iff)
  then show "display_name p = spec_display_name p" by (rule display_name_words)
qed

lemma served_turns:
  "served st \<Longrightarrow> sessions st s = Some h \<Longrightarrow> list_all served_turn h"
proof (induction arbitrary: s h rule: served.induct)
  case served_init
  then show ?case by (simp add: SessionStore_init_def)
next
  case (served_user st session_id msg)
  have old: "list_all served_turn (dd_get (sessions st) [] session_id)"
    using served_user.IH [of session_id] by (cases "sessions st session_id") (simp_all add: dd_get_def)
  show ?case
  proof (cases "s = session_id")
    case True
    with served_user.prems have "h = dd_get (sessions (append_user st session_id msg)) [] session_id"
      by (simp add: dd_get_def)
    moreover have "served_turn (user_turn msg)" by (simp add: served_turn_def user_turn_def)
    ultimately show ?thesis using old by (simp add: append_user_history)
  next
    case False
    with served_user.prems have "sessions st s = Some h" by (simp add: append_user_sessions)
    then show ?thesis by (rule served_user.IH)
  qed
next
  case (served_assistant st session_id p msg)
  have old: "list_all served_turn (dd_get (sessions st) [] session_id)"
    using served_assistant.IH [of session_id]
    by (cases "sessions st session_id") (simp_all add: dd_get_def)
  show ?case
  proof (cases "s = session_id")
    case True
    have "served_turn \<lparr>role = ''assistant'', content = msg, metadata = Some [(''persona'', p)]\<rparr>"
      using served_assistant.hyps(3) by (simp add: served_turn_def)
    with True served_assistant.prems(1) old show ?thesis
      by (auto simp add: append_assistant_def)
  next
    case False
    with served_assistant.prems have "sessions st s = Some h" by (simp add: append_assistant_def)
    then show ?thesis by (rule served_assistant.IH)
  qed
qed

lemma served_history:
  assumes "served st" and "i < length (dd_get (sessions st) [] s)"
  shows "served_turn (dd_get (sessions st) [] s ! i)"
proof (cases "sessions st s")
  case None
  with assms(2) show ?thesis by (simp add: dd_get_def)
next
  case (Some h)
  from served_turns [OF assms(1) Some] assms(2) Some show ?thesis
    by (simp add: dd_get_def list_all_length)
qed

lemma render_served_assistant:
  assumes "p \<in> set get_personas"
  shows "render_turn \<lparr>role = ''assistant'', content = c, metadata = Some [(''persona'', p)]\<rparr> =
     \<lparr>role = ''assistant'', content = ''('' @ spec_display_name p @ '' said) '' @ c\<rparr>"
  using roster_key [OF assms] by (simp add: render_assistant)

lemma render_served:
  assumes "served_turn t"
  shows "role (render_turn t) = role t"
    and "role t = ''user'' \<or> role t = ''assistant''"
    and "role t = ''user'' \<Longrightarrow> content (render_turn t) = content t"
    and "role t = ''assistant'' \<Longrightarrow>
           \<exists>p\<in>set get_personas. metadata t = Some [(''persona'', p)]
              \<and> content (render_turn t) = ''('' @ spec_display_name p @ '' said) '' @ content t"
proof -
  show "role (render_turn t) = role t"
    by (simp add: render_turn_def split: option.splits)
  from assms show "role t = ''user'' \<or> role t = ''assistant''"
    by (auto simp add: served_turn_def)
  show "content (render_turn t) = content t" if "role t = ''user''"
    using that by (simp add: render_turn_def split: option.splits)
  show "\<exists>p\<in>set get_personas. metadata t = Some [(''persona'', p)]
              \<and> content (render_turn t) = ''('' @ spec_display_name p @ '' said) '' @ content t"
    if "role t = ''assistant''"
  proof -
    from assms that obtain p where p: "p \<in> set get_personas" "metadata t = Some [(''persona'', p)]"
      by (auto simp add: served_turn_def)
    from roster_key [OF p(1)] p(2) that
    have "content (render_turn t) = ''('' @ spec_display_name p @ '' said) '' @ content t"
      by (simp add: render_turn_def metadata_persona_def)
    with p show ?thesis by blast
  qed
qed

lemma get_messages_append_assistant:
  "get_messages (append_assistant st s c p) s =
     get_messages st s
       @ [render_turn \<lparr>role = ''assistant'', content = c, metadata = Some [(''persona'', p)]\<rparr>]"
proof -
  have "dd_get (sessions (append_assistant st s c p)) [] s =
      dd_get (sessions st) [] s
        @ [\<lparr>role = ''assistant'', content = c, metadata = Some [(''persona'', p)]\<rparr>]"
    by (simp add: append_assistant_def dd_get_def)
  then show ?thesis by (simp only: get_messages_dd map_append list.map)
qed

lemma get_messages_append_user:
  "get_messages (append_user st s c) s =
     (if dd_get (sessions st) [] s \<noteq> [] \<and> role (last (dd_get (sessions st) [] s)) = ''user''
         \<and> content (last (dd_get (sessions st) [] s)) = c
      then get_messages st s
      else get_messages st s @ [\<lparr>role = ''user'', content = c\<rparr>])"
  by (simp add: get_messages_dd append_user_history is_duplicate_def user_turn_def render_user)

lemma get_messages_elsewhere:
  "s' \<noteq> s \<Longrightarrow> get_messages (append_assistant st s c p) s' = get_messages st s'"
  "s' \<noteq> s \<Longrightarrow> get_messages (append_user st s c) s' = get_messages st s'"
  by (simp_all add: get_messages_map append_assistant_def append_user_sessions)

text \<open>
  C5. For a store of the server, \<open>get_messages\<close> returns one entry per stored message,
  in stored order and with the stored role, which is \<open>user\<close> or \<open>assistant\<close>. The content
  of an assistant entry is \<open>(Name said)\<close>, a space and the stored content, where
  \<open>Name\<close> is the persona key with its underscores replaced by spaces and each word
  capitalized; the content of a user entry is the stored content. Accordingly, appending
  an assistant message of a roster persona adds that one entry at the end, with
  \<open>(Film Noir Detective said) hi\<close> for \<open>append_assistant(s, "hi",
  "film_noir_detective")\<close>; appending a user message adds the user entry unchanged (or
  nothing, for a duplicate); other sessions are not affected; a session never written to
  gives the empty list.
\<close>

theorem get_messages_rendering:
  assumes "served st"
  shows "length (get_messages st s) = length (dd_get (sessions st) [] s)
   \<and> (\<forall>i<length (dd_get (sessions st) [] s).
         role (get_messages st s ! i) = role (dd_get (sessions st) [] s ! i)
         \<and> (role (dd_get (sessions st) [] s ! i) = ''user''
            \<or> role (dd_get (sessions st) [] s ! i) = ''assistant'')
         \<and> (role (dd_get (sessions st) [] s ! i) = ''assistant'' \<longrightarrow>
              (\<exists>p\<in>set get_personas.
                  metadata (dd_get (sessions st) [] s ! i) = Some [(''persona'', p)]
                  \<and> content (get_messages st s ! i) =
                      ''('' @ spec_display_name p @ '' said) ''
                        @ content (dd_get (sessions st) [] s ! i)))
         \<and> (role (dd_get (sessions st) [] s ! i) = ''user'' \<longrightarrow>
              content (get_messages st s ! i) = content (dd_get (sessions st) [] s ! i)))
   \<and> (\<forall>p\<in>set get_personas.
         get_messages (append_assistant st s c p) s =
           get_messages st s @
             [\<lparr>role = ''assistant'',
               content = ''('' @ spec_display_name p @ '' said) '' @ c\<rparr>])
   \<and> get_messages (append_assistant st s ''hi'' ''film_noir_detective'') s =
       get_messages st s @ [\<lparr>role = ''assistant'', content = ''(Film Noir Detective said) hi''\<rparr>]
   \<and> get_messages (append_user st s c) s =
       (if dd_get (sessions st) [] s \<noteq> [] \<and> role (last (dd_get (sessions st) [] s)) = ''user''
           \<and> content (last (dd_get (sessions st) [] s)) = c
        then get_messages st s
        else get_messages st s @ [\<lparr>role = ''user'', content = c\<rparr>])
   \<and> (\<forall>s'. s' \<noteq> s \<longrightarrow>
         get_messages (append_assistant st s c q) s' = get_messages st s'
         \<and> get_messages (append_user st s c) s' = get_messages st s')
   \<and> (sessions st s = None \<longrightarrow> get_messages st s = [])
   \<and> get_messages SessionStore_init s = []"
proof -
  let ?h = "dd_get (sessions st) [] s"
  have l: "length (get_messages st s) = length ?h" by (simp add: get_messages_dd)
  have k: "\<forall>i<length ?h.
         role (get_messages st s ! i) = role (?h ! i)
         \<and> (role (?h ! i) = ''user'' \<or> role (?h ! i) = ''assistant'')
         \<and> (role (?h ! i) = ''assistant'' \<longrightarrow>
              (\<exists>p\<in>set get_personas.
                  metadata (?h ! i) = Some [(''persona'', p)]
                  \<and> content (get_messages st s ! i) =
                      ''('' @ spec_display_name p @ '' said) '' @ content (?h ! i)))
         \<and> (role (?h ! i) = ''user'' \<longrightarrow>
              content (get_messages st s ! i) = content (?h ! i))"
  proof (intro allI impI)
    fix i assume i: "i < length ?h"
    have g: "get_messages st s ! i = render_turn (?h ! i)"
      using i by (simp add: get_messages_dd)
    note r = render_served [OF served_history [OF assms i]]
    show "role (get_messages st s ! i) = role (?h ! i)
         \<and> (role (?h ! i) = ''user'' \<or> role (?h ! i) = ''assistant'')
         \<and> (role (?h ! i) = ''assistant'' \<longrightarrow>
              (\<exists>p\<in>set get_personas.
                  metadata (?h ! i) = Some [(''persona'', p)]
                  \<and> content (get_messages st s ! i) =
                      ''('' @ spec_display_name p @ '' said) '' @ content (?h ! i)))
         \<and> (role (?h ! i) = ''user'' \<longrightarrow>
              content (get_messages st s ! i) = content (?h ! i))"
      unfolding g using r by blast
  qed
  have a: "\<forall>p\<in>set get_personas.
         get_messages (append_assistant st s c p) s =
           get_messages st s @
             [\<lparr>role = ''assistant'',
               content = ''('' @ spec_display_name p @ '' said) '' @ c\<rparr>]"
    by (simp add: get_messages_append_assistant render_served_assistant)
  have f: "get_messages (append_assistant st s ''hi'' ''film_noir_detective'') s =
       get_messages st s @ [\<lparr>role = ''assistant'', content = ''(Film Noir Detective said) hi''\<rparr>]"
    by (simp add: get_messages_append_assistant render_assistant film_noir)
  note u = get_messages_append_user [of st s c]
  have o: "\<forall>s'. s' \<noteq> s \<longrightarrow>
         get_messages (append_assistant st s c q) s' = get_messages st s'
         \<and> get_messages (append_user st s c) s' = get_messages st s'"
    by (simp add: get_messages_elsewhere)
  have n: "sessions st s = None \<longrightarrow> get_messages st s = []"
    by (simp add: get_messages_map)
  have i: "get_messages SessionStore_init s = []"
    by (simp add: get_messages_map SessionStore_init_def)
  from l k a f u o n i show ?thesis by blast
qed

theorem get_messages_rendering_witness:
  "served (append_assistant (append_user SessionStore_init ''s'' ''X'') ''s'' ''hi'' ''your_nan'')
   \<and> ''film_noir_detective'' \<in> set get_personas
   \<and> sessions (append_assistant (append_user SessionStore_init ''s'' ''X'') ''s'' ''hi''
                 ''your_nan'') ''t'' = None
   \<and> get_messages (append_assistant (append_user SessionStore_init ''s'' ''X'') ''s'' ''hi''
                     ''your_nan'') ''s'' =
       [\<lparr>role = ''user'', content = ''X''\<rparr>,
        \<lparr>role = ''assistant'', content = ''(Your Nan said) hi''\<rparr>]
   \<and> get_messages
       (append_assistant
          (append_assistant (append_user SessionStore_init ''s'' ''X'') ''s'' ''hi'' ''your_nan'')
          ''s'' ''hi'' ''film_noir_detective'') ''s'' =
       [\<lparr>role = ''user'', content = ''X''\<rparr>,
        \<lparr>role = ''assistant'', content = ''(Your Nan said) hi''\<rparr>,
        \<lparr>role = ''assistant'', content = ''(Film Noir Detective said) hi''\<rparr>]
   \<and> get_messages (append_assistant (append_user SessionStore_init ''s'' ''X'') ''s'' ''hi''
                     ''your_nan'') ''t'' = []"
proof -
  let ?u = "append_user SessionStore_init ''s'' ''X''"
  let ?st = "append_assistant ?u ''s'' ''hi'' ''your_nan''"
  have nan: "''your_nan'' \<in> set get_personas" by (simp add: get_personas_def)
  have fn: "''film_noir_detective'' \<in> set get_personas" by (simp add: get_personas_def)
  have su: "served ?u" by (intro served_user served_init) simp
  have sv: "served ?st" using su nan by (intro served_assistant) simp_all
  have n: "sessions ?st ''t'' = None"
    by (simp add: append_assistant_def append_user_sessions SessionStore_init_def)
  have sn: "spec_display_name ''your_nan'' = ''Your Nan''" by code_simp
  have gu: "get_messages ?u ''s'' = [\<lparr>role = ''user'', content = ''X''\<rparr>]"
    using get_messages_rendering [OF served_init, of "''s''" "''X''"]
    by (simp add: init_history)
  have g: "get_messages ?st ''s'' =
       [\<lparr>role = ''user'', content = ''X''\<rparr>,
        \<lparr>role = ''assistant'', content = ''(Your Nan said) hi''\<rparr>]"
    using get_messages_rendering [OF su, of "''s''" "''hi''"] nan gu sn by simp
  have f: "get_messages (append_assistant ?st ''s'' ''hi'' ''film_noir_detective'') ''s'' =
       [\<lparr>role = ''user'', content = ''X''\<rparr>,
        \<lparr>role = ''assistant'', content = ''(Your Nan said) hi''\<rparr>,
        \<lparr>role = ''assistant'', content = ''(Film Noir Detective said) hi''\<rparr>]"
    using get_messages_rendering [OF sv, of "''s''"] g by simp
  have e: "get_messages ?st ''t'' = []"
    using get_messages_rendering [OF sv, of "''t''"] n by simp
  from sv fn n g f e show ?thesis by simp
qed

end
